theory Spec2Isabelle
  imports
    Main
    "HOL-Library.Char_ord"
    "HOL-Library.List_Lexorder"
    "HOL-Library.Multiset"
    "HOL-Library.Product_Lexorder"
    "HOL-Library.Word"
begin

section \<open>Python text\<close>

text \<open>
  The scanner of \<^verbatim>\<open>scripts/archived-analysis-tools/chanuka_error_extractor.py\<close> works on
  Python \<^verbatim>\<open>str\<close> values. A \<^typ>\<open>string\<close> stands for one, each \<^typ>\<open>char\<close> being one code
  point; the model covers text whose code points are below 256. The functions of this section are
  the methods of \<^verbatim>\<open>str\<close> that the scanner calls, on that range.
\<close>

abbreviation bs :: char where
  "bs \<equiv> CHR 0x5C"

abbreviation newline :: char where
  "newline \<equiv> CHR 0x0A"

definition isspace :: "char \<Rightarrow> bool" where
  \<comment> \<open>\<^verbatim>\<open>str.isspace\<close> on one code point: TAB..CR, FS..US, space, NEL, NBSP\<close>
  "isspace c = (let n = (of_char c :: nat) in
     (9 \<le> n \<and> n \<le> 13) \<or> (28 \<le> n \<and> n \<le> 32) \<or> n = 133 \<or> n = 160)"

definition isdecimal :: "char \<Rightarrow> bool" where
  "isdecimal c = (let n = (of_char c :: nat) in 48 \<le> n \<and> n \<le> 57)"

definition isalnum :: "char \<Rightarrow> bool" where
  \<comment> \<open>\<^verbatim>\<open>str.isalnum\<close> on one code point below 256\<close>
  "isalnum c = (let n = (of_char c :: nat) in
     (48 \<le> n \<and> n \<le> 57) \<or> (65 \<le> n \<and> n \<le> 90) \<or> (97 \<le> n \<and> n \<le> 122)
     \<or> n = 170 \<or> n = 178 \<or> n = 179 \<or> n = 181 \<or> n = 185 \<or> n = 186
     \<or> (188 \<le> n \<and> n \<le> 190) \<or> (192 \<le> n \<and> n \<le> 214) \<or> (216 \<le> n \<and> n \<le> 246)
     \<or> 248 \<le> n)"

definition str_strip :: "string \<Rightarrow> string" where
  \<comment> \<open>\<^verbatim>\<open>s.strip()\<close>\<close>
  "str_strip s = rev (dropWhile isspace (rev (dropWhile isspace s)))"

definition str_startswith :: "string \<Rightarrow> string \<Rightarrow> bool" where
  \<comment> \<open>\<^verbatim>\<open>s.startswith(p)\<close>\<close>
  "str_startswith s p = (take (length p) s = p)"

fun str_split :: "char \<Rightarrow> string \<Rightarrow> string list" where
  \<comment> \<open>\<^verbatim>\<open>s.split(c)\<close> for a one-character separator\<close>
  "str_split c [] = [[]]"
| "str_split c (x # xs) =
     (if x = c then [] # str_split c xs
      else (case str_split c xs of
              [] \<Rightarrow> [[x]]
            | l # ls \<Rightarrow> (x # l) # ls))"

definition lower_char :: "char \<Rightarrow> char" where
  "lower_char c = (let n = (of_char c :: nat) in
     if (65 \<le> n \<and> n \<le> 90) \<or> (192 \<le> n \<and> n \<le> 222 \<and> n \<noteq> 215)
     then char_of (n + 32) else c)"

definition str_lower :: "string \<Rightarrow> string" where
  \<comment> \<open>\<^verbatim>\<open>s.lower()\<close>\<close>
  "str_lower s = map lower_char s"

fun str_rfind :: "char \<Rightarrow> string \<Rightarrow> nat option" where
  \<comment> \<open>\<^verbatim>\<open>s.rfind(c)\<close>, with \<open>None\<close> for Python's \<open>-1\<close>\<close>
  "str_rfind c [] = None"
| "str_rfind c (x # xs) =
     (case str_rfind c xs of
        Some i \<Rightarrow> Some (Suc i)
      | None \<Rightarrow> if x = c then Some 0 else None)"

fun digit_char :: "nat \<Rightarrow> char" where
  "digit_char n = char_of (48 + n mod 10)"

fun str_of_nat :: "nat \<Rightarrow> string" where
  \<comment> \<open>\<^verbatim>\<open>str(n)\<close> for a non-negative integer\<close>
  "str_of_nat n = (if n < 10 then [digit_char n] else str_of_nat (n div 10) @ [digit_char n])"

declare str_of_nat.simps [simp del]

section \<open>The regular expressions of module \<^verbatim>\<open>re\<close>\<close>

text \<open>
  \<^verbatim>\<open>re.compile\<close> and \<^verbatim>\<open>Pattern.search\<close> belong to Python's library. They are modelled here
  for the syntax that the rules of the scanner are written in: literals, \<^verbatim>\<open>.\<close>, escapes
  \<^verbatim>\<open>\s \w \d \b\<close> and escaped punctuation, character sets, groups, alternation, the
  quantifiers \<^verbatim>\<open>*\<close>, \<^verbatim>\<open>+\<close> and \<^verbatim>\<open>{n,}\<close>, negative lookahead and negative lookbehind. Any other
  construct is answered with the error \<open>unsupported\<close>, which is not one of Python's.
  \<^verbatim>\<open>search\<close> is only ever used as a truth value by the scanner, so a compiled expression
  is given the set of positions at which a match starting at a given position can end.
\<close>

datatype cclass = CLit char | CSpace | CWord | CDigit

datatype regex =
    Literal char
  | Any
  | In bool "cclass list"
  | Boundary
  | Eps
  | Cat regex regex
  | Or regex regex
  | AtLeast nat regex
  | Group regex
  | AssertNot bool regex

definition is_word :: "char \<Rightarrow> bool" where
  "is_word c = (isalnum c \<or> c = CHR ''_'')"

fun in_class :: "cclass \<Rightarrow> char \<Rightarrow> bool" where
  "in_class (CLit d) c = (c = d)"
| "in_class CSpace c = isspace c"
| "in_class CWord c = is_word c"
| "in_class CDigit c = isdecimal c"

definition at_boundary :: "string \<Rightarrow> nat \<Rightarrow> bool" where
  "at_boundary s i =
     ((i < length s \<and> is_word (s ! i)) \<noteq> (0 < i \<and> i \<le> length s \<and> is_word (s ! (i - 1))))"

definition re_step :: "(nat \<Rightarrow> nat list) \<Rightarrow> nat list \<Rightarrow> nat list" where
  "re_step f ps = remdups (concat (map f ps))"

fun re_closure :: "(nat \<Rightarrow> nat list) \<Rightarrow> nat \<Rightarrow> nat list \<Rightarrow> nat list" where
  \<comment> \<open>all positions reached from \<open>acc\<close> by repeating \<open>f\<close>; \<open>length s + 1\<close> rounds reach every position of \<open>s\<close>\<close>
  "re_closure f 0 acc = acc"
| "re_closure f (Suc n) acc =
     (let new = filter (\<lambda>j. j \<notin> set acc) (re_step f acc)
      in if new = [] then acc else re_closure f n (acc @ new))"

primrec re_ends :: "regex \<Rightarrow> string \<Rightarrow> nat \<Rightarrow> nat list" where
  "re_ends (Literal c) s i = (if i < length s \<and> s ! i = c then [Suc i] else [])"
| "re_ends Any s i = (if i < length s \<and> s ! i \<noteq> newline then [Suc i] else [])"
| "re_ends (In negate items) s i =
     (if i < length s \<and> ((\<exists>it \<in> set items. in_class it (s ! i)) \<noteq> negate) then [Suc i] else [])"
| "re_ends Boundary s i = (if at_boundary s i then [i] else [])"
| "re_ends Eps s i = [i]"
| "re_ends (Cat a b) s i = re_step (re_ends b s) (re_ends a s i)"
| "re_ends (Or a b) s i = remdups (re_ends a s i @ re_ends b s i)"
| "re_ends (AtLeast m r) s i =
     re_closure (re_ends r s) (Suc (length s)) ((re_step (re_ends r s) ^^ m) [i])"
| "re_ends (Group r) s i = re_ends r s i"
| "re_ends (AssertNot behind r) s i =
     (if behind then (if \<exists>j \<in> set [0..<Suc i]. i \<in> set (re_ends r s j) then [] else [i])
      else (if re_ends r s i = [] then [i] else []))"

definition re_search :: "regex \<Rightarrow> string \<Rightarrow> bool" where
  \<comment> \<open>the truth value of \<^verbatim>\<open>compiled.search(s)\<close>\<close>
  "re_search r s = (\<exists>i \<in> set [0..<Suc (length s)]. re_ends r s i \<noteq> [])"

definition ishex :: "char \<Rightarrow> bool" where
  "ishex c = (c \<in> set ''0123456789abcdefABCDEF'')"

definition isasciialnum :: "char \<Rightarrow> bool" where
  "isasciialnum c = (let n = (of_char c :: nat) in
     (48 \<le> n \<and> n \<le> 57) \<or> (65 \<le> n \<and> n \<le> 90) \<or> (97 \<le> n \<and> n \<le> 122))"

definition escape :: "char \<Rightarrow> string \<Rightarrow> string + regex" where
  \<comment> \<open>\<open>escape e rest\<close>: the item for backslash \<open>e\<close> outside a character set, \<open>rest\<close> following\<close>
  "escape e rest =
     (if e = CHR ''s'' then Inr (In False [CSpace])
      else if e = CHR ''w'' then Inr (In False [CWord])
      else if e = CHR ''d'' then Inr (In False [CDigit])
      else if e = CHR ''b'' then Inr Boundary
      else if e = CHR ''u'' then
        (if length (takeWhile ishex (take 4 rest)) = 4 then Inl ''unsupported''
         else Inl (''incomplete escape '' @ bs # e # takeWhile ishex (take 4 rest)))
      else if isasciialnum e then Inl ''unsupported''
      else Inr (Literal e))"

definition class_escape :: "char \<Rightarrow> string + cclass" where
  \<comment> \<open>the same inside a character set\<close>
  "class_escape e =
     (if e = CHR ''s'' then Inr CSpace
      else if e = CHR ''w'' then Inr CWord
      else if e = CHR ''d'' then Inr CDigit
      else if isasciialnum e then Inl ''unsupported''
      else Inr (CLit e))"

fun parse_set :: "cclass list \<Rightarrow> string \<Rightarrow> string + (cclass list \<times> string)" where
  \<comment> \<open>the members of a set, after \<^verbatim>\<open>[\<close> or \<^verbatim>\<open>[^\<close>, up to the closing \<^verbatim>\<open>]\<close>; ranges are not modelled\<close>
  "parse_set acc [] = Inl ''unterminated character set''"
| "parse_set acc [c] =
     (if c = CHR '']'' \<and> acc \<noteq> [] then Inr (rev acc, [])
      else if c = bs then Inl ''bad escape (end of pattern)''
      else Inl ''unterminated character set'')"
| "parse_set acc (c # d # cs) =
     (if c = CHR '']'' \<and> acc \<noteq> [] then Inr (rev acc, d # cs)
      else if c = bs then
        (case class_escape d of
           Inl err \<Rightarrow> Inl err
         | Inr it \<Rightarrow> if take 1 cs = ''-'' then Inl ''unsupported'' else parse_set (it # acc) cs)
      else if d = CHR ''-'' then Inl ''unsupported''
      else parse_set (CLit c # acc) (d # cs))"

datatype braces = BLiteral | BAtLeast nat string | BOther

definition nat_of_digits :: "string \<Rightarrow> nat" where
  "nat_of_digits ds = foldl (\<lambda>n d. 10 * n + (of_char d - 48)) 0 ds"

definition parse_braces :: "string \<Rightarrow> braces" where
  \<comment> \<open>what follows a \<^verbatim>\<open>{\<close>: not a quantifier (the brace is a literal), \<^verbatim>\<open>{n,}\<close>, or another quantifier\<close>
  "parse_braces cs =
     (if take 1 cs = ''}'' then BLiteral
      else
        (let lo = takeWhile isdecimal cs; r1 = dropWhile isdecimal cs in
         if take 1 r1 = '','' then
           (let hi = takeWhile isdecimal (tl r1); r2 = dropWhile isdecimal (tl r1) in
            if take 1 r2 = ''}'' then
              (if hi = [] then BAtLeast (nat_of_digits lo) (tl r2) else BOther)
            else BLiteral)
         else if take 1 r1 = ''}'' then BOther
         else BLiteral))"

fun seq_of :: "regex list \<Rightarrow> regex" where
  "seq_of [] = Eps"
| "seq_of [r] = r"
| "seq_of (r # rs) = Cat r (seq_of rs)"

fun repeat :: "nat \<Rightarrow> regex list \<Rightarrow> regex list option" where
  \<comment> \<open>a quantifier applies to the last item read, which must be there and must not be \<^verbatim>\<open>\b\<close>\<close>
  "repeat m [] = None"
| "repeat m (Boundary # acc) = None"
| "repeat m (r # acc) = Some (AtLeast m r # acc)"

datatype gkind = GCapture | GNotAhead | GNotBehind

datatype token =
    TItem regex
  | TRepeat nat
  | TOpen gkind
  | TClose
  | TBar
  | TError string

definition lex_escape :: "string \<Rightarrow> (token \<times> string)" where
  \<comment> \<open>the token after a backslash\<close>
  "lex_escape cs =
     (case cs of
        [] \<Rightarrow> (TError ''bad escape (end of pattern)'', [])
      | e # cs' \<Rightarrow>
          (case escape e cs' of
             Inl err \<Rightarrow> (TError err, [])
           | Inr r \<Rightarrow> (TItem r, cs')))"

definition lex_set :: "string \<Rightarrow> (token \<times> string)" where
  \<comment> \<open>the token after \<^verbatim>\<open>[\<close>\<close>
  "lex_set cs =
     (case parse_set [] (if take 1 cs = ''^'' then tl cs else cs) of
        Inl err \<Rightarrow> (TError err, [])
      | Inr (items, rest) \<Rightarrow> (TItem (In (take 1 cs = ''^'') items), rest))"

definition lex_repeat :: "nat \<Rightarrow> string \<Rightarrow> (token \<times> string)" where
  \<comment> \<open>a quantifier with minimum \<open>m\<close> and no maximum; lazy and possessive forms are not modelled\<close>
  "lex_repeat m rest =
     (if take 1 rest = ''?'' \<or> take 1 rest = ''+'' then (TError ''unsupported'', [])
      else (TRepeat m, rest))"

definition lex_open :: "string \<Rightarrow> (token \<times> string)" where
  \<comment> \<open>the token after \<^verbatim>\<open>(\<close>\<close>
  "lex_open cs =
     (if take 2 cs = ''?!'' then (TOpen GNotAhead, drop 2 cs)
      else if take 3 cs = ''?<!'' then (TOpen GNotBehind, drop 3 cs)
      else if take 1 cs = ''?'' then (TError ''unsupported'', [])
      else (TOpen GCapture, cs))"

definition lex1 :: "char \<Rightarrow> string \<Rightarrow> (token \<times> string)" where
  \<comment> \<open>the first token of \<open>c # cs\<close> and the text after it\<close>
  "lex1 c cs =
     (if c = bs then lex_escape cs
      else if c = CHR ''['' then lex_set cs
      else if c = CHR ''*'' then lex_repeat 0 cs
      else if c = CHR ''+'' then lex_repeat 1 cs
      else if c = CHR ''{'' then
        (case parse_braces cs of
           BLiteral \<Rightarrow> (TItem (Literal c), cs)
         | BOther \<Rightarrow> (TError ''unsupported'', [])
         | BAtLeast m rest \<Rightarrow> lex_repeat m rest)
      else if c = CHR ''.'' then (TItem Any, cs)
      else if c = CHR ''('' then lex_open cs
      else if c = CHR '')'' then (TClose, cs)
      else if c = CHR ''|'' then (TBar, cs)
      else if c = CHR ''?'' \<or> c = CHR ''^'' \<or> c = CHR ''$'' then (TError ''unsupported'', [])
      else (TItem (Literal c), cs))"

fun tokens :: "nat \<Rightarrow> string \<Rightarrow> (token \<times> nat) list" where
  \<comment> \<open>the tokens of a pattern, each with the number of characters from its start to the end;
      \<open>length s\<close> rounds read all of \<open>s\<close>, a token being at least one character\<close>
  "tokens 0 s = []"
| "tokens (Suc n) [] = []"
| "tokens (Suc n) (c # cs) = (fst (lex1 c cs), Suc (length cs)) # tokens n (snd (lex1 c cs))"

definition mk_group :: "gkind \<Rightarrow> regex \<Rightarrow> regex" where
  "mk_group k r = (case k of GCapture \<Rightarrow> Group r | GNotAhead \<Rightarrow> AssertNot False r
     | GNotBehind \<Rightarrow> AssertNot True r)"

record frame =
  kind :: gkind
  opened :: nat
  branches :: "regex list"
  items :: "regex list"

definition close_frame :: "frame \<Rightarrow> regex" where
  \<comment> \<open>the alternation of the branches read, the last one being the items after the last bar\<close>
  "close_frame f = foldl (\<lambda>r a. Or a r) (seq_of (rev (items f))) (branches f)"

fun parse :: "frame \<Rightarrow> frame list \<Rightarrow> (token \<times> nat) list \<Rightarrow> (string \<times> nat) + regex" where
  \<comment> \<open>\<open>parse f stack ts\<close>: \<open>f\<close> is the group being read, \<open>stack\<close> the groups around it;
      an error comes with the number of characters left at its position\<close>
  "parse f stack [] =
     (case stack of
        [] \<Rightarrow> Inr (close_frame f)
      | _ \<Rightarrow> Inl (''missing ), unterminated subpattern'', opened f))"
| "parse f stack ((TItem r, p) # ts) = parse (f\<lparr>items := r # items f\<rparr>) stack ts"
| "parse f stack ((TRepeat m, p) # ts) =
     (case items f of
        AtLeast k r # acc \<Rightarrow> Inl (''multiple repeat'', p)
      | _ \<Rightarrow>
        (case repeat m (items f) of
           None \<Rightarrow> Inl (''nothing to repeat'', p)
         | Some acc \<Rightarrow> parse (f\<lparr>items := acc\<rparr>) stack ts))"
| "parse f stack ((TOpen k, p) # ts) =
     parse \<lparr>kind = k, opened = p, branches = [], items = []\<rparr> (f # stack) ts"
| "parse f stack ((TClose, p) # ts) =
     (case stack of
        [] \<Rightarrow> Inl (''unbalanced parenthesis'', p)
      | g # stack' \<Rightarrow> parse (g\<lparr>items := mk_group (kind f) (close_frame f) # items g\<rparr>) stack' ts)"
| "parse f stack ((TBar, p) # ts) =
     parse (f\<lparr>branches := seq_of (rev (items f)) # branches f, items := []\<rparr>) stack ts"
| "parse f stack ((TError msg, p) # ts) = Inl (msg, p)"

definition re_compile :: "string \<Rightarrow> string + regex" where
  \<comment> \<open>\<^verbatim>\<open>re.compile(src)\<close>: the compiled expression, or the text of the \<^verbatim>\<open>re.error\<close>\<close>
  "re_compile src =
     (case parse \<lparr>kind = GCapture, opened = length src, branches = [], items = []\<rparr> []
             (tokens (length src) src) of
        Inl (msg, left) \<Rightarrow> Inl (msg @ '' at position '' @ str_of_nat (length src - left))
      | Inr r \<Rightarrow> Inr r)"

section \<open>Rules\<close>

text \<open>
  The dataclass \<^verbatim>\<open>Pattern\<close>. Its \<^verbatim>\<open>__post_init__\<close> compiles the expression; when that raises
  \<^verbatim>\<open>re.error\<close> it prints a warning and leaves \<^verbatim>\<open>compiled\<close> at \<^verbatim>\<open>None\<close>. The model returns the
  lines printed together with the object.
\<close>

record Pattern =
  name :: string
  regex :: string
  severity :: string
  message :: string
  compiled :: "regex option"

definition Pattern_init :: "string \<Rightarrow> string \<Rightarrow> string \<Rightarrow> string \<Rightarrow> string list \<times> Pattern" where
  "Pattern_init nm rx sev msg =
     (case re_compile rx of
        Inr r \<Rightarrow>
          ([], \<lparr>name = nm, regex = rx, severity = sev, message = msg, compiled = Some r\<rparr>)
      | Inl e \<Rightarrow>
          ([''Warning: Invalid regex for '' @ nm @ '': '' @ e],
           \<lparr>name = nm, regex = rx, severity = sev, message = msg, compiled = None\<rparr>))"

definition init_typescript_patterns :: "(string list \<times> Pattern) list" where
  "init_typescript_patterns =
    [Pattern_init ''any_usage''
       ('':'' @ bs # ''s*any'' @ bs # ''b|<any>|as'' @ bs # ''s+any'' @ bs # ''b'')
       ''warning'' (''Usage of '' @ [CHR 0x22] @ ''any'' @ [CHR 0x22] @ '' type reduces type safety''),
     Pattern_init ''ts_ignore'' ''@ts-ignore'' ''warning'' ''TypeScript error suppression found'',
     Pattern_init ''ts_nocheck'' ''@ts-nocheck'' ''error'' ''Entire file TypeScript checking disabled'',
     Pattern_init ''ts_expect_error''
       (''@ts-expect-error(?!'' @ bs # ''s*:'' @ bs # ''s*.+)'')
       ''info'' ''Expected TypeScript error (consider adding comment)'',
     Pattern_init ''non_null_assertion''
       (''!'' @ bs # ''s*[;'' @ bs # ''.'' @ bs # ''['' @ bs # ''(]'')
       ''warning'' ''Non-null assertion operator (!) used - ensure safety'',
     Pattern_init ''unknown_type''
       ('':'' @ bs # ''s*unknown'' @ bs # ''b'')
       ''info'' ''Unknown type used (safer than any, but consider specifics)'',
     Pattern_init ''type_assertion''
       (''as'' @ bs # ''s+'' @ bs # ''w+'')
       ''info'' ''Type assertion used - verify correctness'']"

definition init_react_patterns :: "(string list \<times> Pattern) list" where
  "init_react_patterns =
    [Pattern_init ''missing_key_prop''
       (bs # ''.map'' @ bs # ''([^)]*'' @ bs # '')'' @ bs # ''s*=>'' @ bs # ''s*<'' @ bs
          # ''w+[^>]*(?<!key=)[^>]*>'')
       ''warning'' (''Missing '' @ [CHR 0x22] @ ''key'' @ [CHR 0x22] @ '' prop in mapped component''),
     Pattern_init ''inline_function''
       (''(onClick|onChange|onSubmit|onBlur|onFocus)='' @ bs # ''{[^}]*=>'')
       ''info'' ''Inline function in JSX (may cause unnecessary re-renders)'',
     Pattern_init ''direct_state_mutation''
       (''(state|this'' @ bs # ''.state)'' @ bs # ''.'' @ bs # ''w+'' @ bs # ''s*=(?!=)'')
       ''error'' ''Direct state mutation detected - use setState'',
     Pattern_init ''empty_deps''
       (''useEffect'' @ bs # ''([^)]+,'' @ bs # ''s*'' @ bs # ''['' @ bs # ''s*'' @ bs # '']''
          @ bs # ''s*'' @ bs # '')'')
       ''info'' ''useEffect with empty dependency array (runs once on mount)'',
     Pattern_init ''missing_deps''
       (''useEffect'' @ bs # ''([^)]+'' @ bs # '')'' @ bs # ''s*(?!,)'')
       ''warning'' ''useEffect without dependency array (runs on every render)'',
     Pattern_init ''useState_initial''
       (''useState'' @ bs # ''('' @ bs # ''s*'' @ bs # ''{|'' @ bs # ''useState'' @ bs # ''(''
          @ bs # ''s*'' @ bs # ''['')
       ''info'' ''useState with object/array - ensure intentional'',
     Pattern_init ''dangerously_set'' ''dangerouslySetInnerHTML''
       ''warning'' ''dangerouslySetInnerHTML used - XSS risk'']"

definition marker :: "string \<Rightarrow> string" where
  \<comment> \<open>the expression \<^verbatim>\<open>//\s*W|/\*\s*W|#\s*W\<close> of the five comment rules\<close>
  "marker w = ''//'' @ bs # ''s*'' @ w @ ''|/'' @ bs # ''*'' @ bs # ''s*'' @ w @ ''|#'' @ bs # ''s*'' @ w"

definition storage :: "string \<Rightarrow> string" where
  \<comment> \<open>the expression \<^verbatim>\<open>W\.(getItem|setItem|removeItem|clear)\<close> of the two storage rules\<close>
  "storage w = w @ bs # ''.(getItem|setItem|removeItem|clear)''"

definition init_common_patterns :: "(string list \<times> Pattern) list" where
  "init_common_patterns =
    [Pattern_init ''TODO'' (marker ''TODO'') ''warning'' ''TODO comment'',
     Pattern_init ''FIXME'' (marker ''FIXME'') ''error'' ''FIXME comment'',
     Pattern_init ''BUG'' (marker ''BUG'') ''critical'' ''BUG comment'',
     Pattern_init ''HACK'' (marker ''HACK'') ''warning'' ''HACK comment'',
     Pattern_init ''XXX'' (marker ''XXX'') ''warning'' ''XXX comment'',
     Pattern_init ''console.log'' (''console'' @ bs # ''.log'' @ bs # ''('') ''info'' ''Debug console.log'',
     Pattern_init ''console.error'' (''console'' @ bs # ''.error'' @ bs # ''('') ''info'' ''Console.error'',
     Pattern_init ''debugger'' (bs # ''bdebugger'' @ bs # ''b(?!:)'') ''warning'' ''Debugger statement'',
     Pattern_init ''alert'' (bs # ''balert'' @ bs # ''s*'' @ bs # ''('') ''warning'' ''Alert statement'',
     Pattern_init ''confirm'' (bs # ''bconfirm'' @ bs # ''s*'' @ bs # ''('') ''warning'' ''Confirm dialog'',
     Pattern_init ''eval'' (bs # ''beval'' @ bs # ''s*'' @ bs # ''('') ''critical''
       ''eval() used - security risk'',
     Pattern_init ''localStorage'' (storage ''localStorage'') ''info'' ''Direct localStorage usage'',
     Pattern_init ''sessionStorage'' (storage ''sessionStorage'') ''info''
       ''Direct sessionStorage usage'',
     Pattern_init ''fetch_no_catch''
       (''fetch'' @ bs # ''([^)]+'' @ bs # '')(?!'' @ bs # ''s*'' @ bs # ''.catch|'' @ bs # ''s*'' @ bs
          # ''.then'' @ bs # ''([^)]*,[^)]*'' @ bs # ''))'')
       ''warning'' ''Fetch without error handling'',
     Pattern_init ''async_no_await''
       (''async'' @ bs # ''s+function[^{]*{(?!.*await)'')
       ''warning'' ''Async function without await'',
     Pattern_init ''empty_catch''
       (''catch'' @ bs # ''s*'' @ bs # ''([^)]*'' @ bs # '')'' @ bs # ''s*{'' @ bs # ''s*}'')
       ''warning'' ''Empty catch block - handle errors properly'']"

definition init_import_patterns :: "(string list \<times> Pattern) list" where
  "init_import_patterns =
    [Pattern_init ''wildcard_import''
       (''import'' @ bs # ''s+'' @ bs # ''*'' @ bs # ''s+as'' @ bs # ''s+'' @ bs # ''w+'' @ bs # ''s+from'')
       ''warning'' ''Wildcard import (affects tree-shaking)'',
     Pattern_init ''deep_relative''
       (''from'' @ bs # ''s+['' @ [bs, CHR 0x27, CHR 0x22] @ ''](''  @ bs # ''.'' @ bs # ''./){4,}'')
       ''warning'' ''Deep relative import (consider path alias)'',
     Pattern_init ''unused_import_likely''
       (''import'' @ bs # ''s+{[^}]{80,}}'' @ bs # ''s+from'')
       ''info'' ''Large import statement - verify all are used'',
     Pattern_init ''require_usage''
       (bs # ''brequire'' @ bs # ''s*'' @ bs # ''('')
       ''info'' ''CommonJS require() in modern codebase'']"

section \<open>Paths\<close>

text \<open>
  POSIX paths as text, for the few operations of \<^verbatim>\<open>pathlib\<close> and \<^verbatim>\<open>os.path\<close> that the scanner
  uses. The paths it handles are normalised: the root of the scan is resolved, and every other
  path is built from it by joining names.
\<close>

definition path_join :: "string \<Rightarrow> string \<Rightarrow> string" where
  \<comment> \<open>\<^verbatim>\<open>str(Path(root) / name)\<close>\<close>
  "path_join root nm =
     (if root = [] then nm else if last root = CHR ''/'' then root @ nm else root @ ''/'' @ nm)"

definition path_name :: "string \<Rightarrow> string" where
  \<comment> \<open>\<^verbatim>\<open>Path(p).name\<close>: the final component\<close>
  "path_name p = last (str_split CHR ''/'' p)"

definition path_suffix :: "string \<Rightarrow> string" where
  \<comment> \<open>\<^verbatim>\<open>Path(p).suffix\<close>: from the last dot of the name, unless the name starts or ends there\<close>
  "path_suffix p =
     (let nm = path_name p in
      case str_rfind CHR ''.'' nm of
        None \<Rightarrow> []
      | Some i \<Rightarrow> if 0 < i \<and> Suc i < length nm then drop i nm else [])"

definition path_parts :: "string \<Rightarrow> string list" where
  \<comment> \<open>\<^verbatim>\<open>Path(p).parts\<close>\<close>
  "path_parts p =
     (if str_startswith p ''/'' then [''/''] else [])
     @ filter (\<lambda>c. c \<noteq> [] \<and> c \<noteq> ''.'') (str_split CHR ''/'' p)"

fun str_join :: "string \<Rightarrow> string list \<Rightarrow> string" where
  \<comment> \<open>\<^verbatim>\<open>sep.join(xs)\<close>\<close>
  "str_join sep [] = []"
| "str_join sep [x] = x"
| "str_join sep (x # xs) = x @ sep @ str_join sep xs"

definition relative_to :: "string \<Rightarrow> string \<Rightarrow> string option" where
  \<comment> \<open>\<^verbatim>\<open>str(Path(p).relative_to(other))\<close>, with \<open>None\<close> for \<^verbatim>\<open>ValueError\<close>\<close>
  "relative_to p other =
     (let ps = path_parts p; os = path_parts other in
      if take (length os) ps = os
      then Some (if drop (length os) ps = [] then ''.'' else str_join ''/'' (drop (length os) ps))
      else None)"

section \<open>The scan session\<close>

text \<open>
  A finding is the dictionary that \<^verbatim>\<open>add_error\<close> appends to \<^verbatim>\<open>self.errors\<close>. Its
  \<^verbatim>\<open>timestamp\<close>, the wall-clock time of the call, is left out. The key \<^verbatim>\<open>file\<close> is the field
  \<open>file'\<close>.
\<close>

record Finding =
  file' :: string
  relative_path :: string
  module :: string
  error_type :: string
  severity :: string
  message :: string
  line :: nat
  column :: nat
  code_snippet :: string

record Metadata =
  project :: string
  root_directory :: string
  total_errors :: nat
  files_scanned :: nat
  lines_scanned :: nat
  tool :: string
  version :: string

record Statistics =
  total_errors :: nat
  by_severity :: "(string \<times> nat) list"
  by_type :: "(string \<times> nat) list"
  by_module :: "(string \<times> nat) list"
  by_file :: "(string \<times> nat) list"
  top_errors :: "(string \<times> nat) list"
  critical_files :: "(string \<times> nat) list"

record Report =
  metadata :: Metadata
  statistics :: Statistics
  errors :: "Finding list"

datatype checker = Check_typescript_file | Check_react_file | Check_javascript_file

record ChanukaErrorExtractor =
  root_dir :: string
  output_file :: string
  errors :: "Finding list"
  file_count :: nat
  scanned_lines :: nat
  skip_dirs :: "string set"
  typescript_patterns :: "Pattern list"
  react_patterns :: "Pattern list"
  common_patterns :: "Pattern list"
  import_patterns :: "Pattern list"

definition file_extensions :: "string \<Rightarrow> checker option" where
  "file_extensions = map_of
     [(''.ts'', Check_typescript_file),
      (''.tsx'', Check_react_file),
      (''.js'', Check_javascript_file),
      (''.jsx'', Check_react_file)]"

definition ChanukaErrorExtractor_init :: "string \<Rightarrow> string \<Rightarrow> string list \<times> ChanukaErrorExtractor" where
  \<comment> \<open>\<^verbatim>\<open>__init__\<close>, given the resolved root: the warnings printed and the new session\<close>
  "ChanukaErrorExtractor_init root out =
     (concat (map fst (init_typescript_patterns @ init_react_patterns
                        @ init_common_patterns @ init_import_patterns)),
      \<lparr>root_dir = root,
       output_file = out,
       errors = [],
       file_count = 0,
       scanned_lines = 0,
       skip_dirs =
         {''node_modules'', ''.git'', ''__pycache__'', ''venv'', ''env'', ''.venv'',
          ''dist'', ''build'', ''.next'', ''target'', ''coverage'', ''test-results'',
          ''playwright-report'', ''drizzle'', ''backup'', ''tmp'', ''temp'', ''.cache'',
          ''out'', ''public'', ''static'', ''.turbo'', ''.vercel'', ''.netlify''},
       typescript_patterns = map snd init_typescript_patterns,
       react_patterns = map snd init_react_patterns,
       common_patterns = map snd init_common_patterns,
       import_patterns = map snd init_import_patterns\<rparr>)"

definition error_dict ::
  "ChanukaErrorExtractor \<Rightarrow> string \<Rightarrow> string \<Rightarrow> string \<Rightarrow> nat \<Rightarrow> nat \<Rightarrow> string \<Rightarrow> string \<Rightarrow> Finding" where
  \<comment> \<open>the dictionary \<^verbatim>\<open>error\<close> that \<^verbatim>\<open>add_error\<close> builds\<close>
  "error_dict self file_path etype msg line_number col sev snippet =
     (let rel = (case relative_to file_path (root_dir self) of
                   Some r \<Rightarrow> r
                 | None \<Rightarrow> file_path);
          mdl = (case str_split CHR ''/'' rel of
                   [] \<Rightarrow> ''unknown''
                 | first_dir # _ \<Rightarrow>
                     if first_dir \<in> set [''client'', ''server'', ''shared'', ''src'']
                     then first_dir else ''unknown'')
      in \<lparr>file' = file_path,
          relative_path = rel,
          module = mdl,
          error_type = etype,
          severity = sev,
          message = msg,
          line = line_number,
          column = col,
          code_snippet = snippet\<rparr>)"

definition add_error ::
  "ChanukaErrorExtractor \<Rightarrow> string \<Rightarrow> string \<Rightarrow> string \<Rightarrow> nat \<Rightarrow> nat \<Rightarrow> string \<Rightarrow> string
     \<Rightarrow> ChanukaErrorExtractor" where
  \<comment> \<open>arguments as in the source: path, type, message, line, column, severity, snippet\<close>
  "add_error self file_path etype msg line_number col sev snippet =
     self\<lparr>errors := errors self
              @ [error_dict self file_path etype msg line_number col sev snippet]\<rparr>"

definition get_category :: "ChanukaErrorExtractor \<Rightarrow> Pattern \<Rightarrow> string" where
  "get_category self pattern =
     (if pattern \<in> set (typescript_patterns self) then ''TypeScript - ''
      else if pattern \<in> set (react_patterns self) then ''React - ''
      else if pattern \<in> set (import_patterns self) then ''Import/Export - ''
      else ''Code Quality - '')"

definition pattern_search :: "Pattern \<Rightarrow> string \<Rightarrow> bool" where
  \<comment> \<open>the truth value of \<^verbatim>\<open>pattern.compiled and pattern.compiled.search(line)\<close>\<close>
  "pattern_search pattern ln =
     (case compiled pattern of None \<Rightarrow> False | Some r \<Rightarrow> re_search r ln)"

definition check_pattern ::
  "string \<Rightarrow> nat \<Rightarrow> string \<Rightarrow> Pattern \<Rightarrow> ChanukaErrorExtractor \<Rightarrow> ChanukaErrorExtractor" where
  \<comment> \<open>the body of the inner loop of \<^verbatim>\<open>_check_patterns\<close>\<close>
  "check_pattern file_path line_num ln pattern self =
     (if pattern_search pattern ln then
        (let stripped = str_strip ln in
         if (str_startswith stripped ''//'' \<or> str_startswith stripped ''*'')
            \<and> name pattern \<notin> set [''TODO'', ''FIXME'', ''BUG'', ''HACK'', ''XXX'']
         then self
         else add_error self file_path (get_category self pattern @ name pattern)
                (Pattern.message pattern) line_num 0 (Pattern.severity pattern)
                (take 150 (str_strip ln)))
      else self)"

definition check_line ::
  "string \<Rightarrow> Pattern list \<Rightarrow> nat \<times> string \<Rightarrow> ChanukaErrorExtractor \<Rightarrow> ChanukaErrorExtractor" where
  \<comment> \<open>the body of the outer loop of \<^verbatim>\<open>_check_patterns\<close>\<close>
  "check_line file_path patterns nl self =
     (if length (snd nl) > 500 then self
      else fold (check_pattern file_path (fst nl) (snd nl)) patterns self)"

definition check_patterns ::
  "ChanukaErrorExtractor \<Rightarrow> string \<Rightarrow> string list \<Rightarrow> Pattern list \<Rightarrow> ChanukaErrorExtractor" where
  "check_patterns self file_path lines patterns =
     fold (check_line file_path patterns) (enumerate 1 lines) self"

section \<open>Files and directories\<close>

text \<open>
  What the scan sees of the file system: a directory is the list of its entries, and a file
  carries what \<^verbatim>\<open>open(path, 'r', encoding='utf-8', errors='ignore')\<close> and \<^verbatim>\<open>read()\<close> do
  with it, either an exception (its text is kept) or the bytes read. Turning the bytes into the
  text that \<^verbatim>\<open>read()\<close> returns is the work of Python's codec with \<^verbatim>\<open>errors='ignore'\<close>, which
  never raises; it is the parameter \<open>decode\<close> of the functions below.
\<close>

type_synonym byte = "8 word"

datatype file_data = Unreadable string | Content "byte list"

datatype entry = File string file_data | Dir string "entry list"

definition check_typescript_file ::
  "(byte list \<Rightarrow> string) \<Rightarrow> ChanukaErrorExtractor \<Rightarrow> string \<Rightarrow> file_data \<Rightarrow> ChanukaErrorExtractor" where
  "check_typescript_file decode self file_path fd =
     (case fd of
        Unreadable e \<Rightarrow> add_error self file_path ''File Read Error'' e 0 0 ''error'' []
      | Content b \<Rightarrow>
          (let content = decode b;
               lines = str_split newline content;
               self = self\<lparr>scanned_lines := scanned_lines self + length lines\<rparr>;
               self = check_patterns self file_path lines (typescript_patterns self);
               self = check_patterns self file_path lines (common_patterns self);
               self = check_patterns self file_path lines (import_patterns self)
           in self))"

definition check_react_file ::
  "(byte list \<Rightarrow> string) \<Rightarrow> ChanukaErrorExtractor \<Rightarrow> string \<Rightarrow> file_data \<Rightarrow> ChanukaErrorExtractor" where
  "check_react_file decode self file_path fd =
     (case fd of
        Unreadable e \<Rightarrow> add_error self file_path ''File Read Error'' e 0 0 ''error'' []
      | Content b \<Rightarrow>
          (let content = decode b;
               lines = str_split newline content;
               self = self\<lparr>scanned_lines := scanned_lines self + length lines\<rparr>;
               self = check_patterns self file_path lines (react_patterns self);
               self = check_patterns self file_path lines (typescript_patterns self);
               self = check_patterns self file_path lines (common_patterns self);
               self = check_patterns self file_path lines (import_patterns self)
           in self))"

definition check_javascript_file ::
  "(byte list \<Rightarrow> string) \<Rightarrow> ChanukaErrorExtractor \<Rightarrow> string \<Rightarrow> file_data \<Rightarrow> ChanukaErrorExtractor" where
  "check_javascript_file decode self file_path fd = check_typescript_file decode self file_path fd"

fun run_checker ::
  "checker \<Rightarrow> (byte list \<Rightarrow> string) \<Rightarrow> ChanukaErrorExtractor \<Rightarrow> string \<Rightarrow> file_data
     \<Rightarrow> ChanukaErrorExtractor" where
  "run_checker Check_typescript_file = check_typescript_file"
| "run_checker Check_react_file = check_react_file"
| "run_checker Check_javascript_file = check_javascript_file"

text \<open>
  The body of the loop over \<^verbatim>\<open>files\<close> in \<^verbatim>\<open>_scan_directory\<close>. The three handlers catch every
  exception themselves, so the call returns, the file is counted, and the branch that records
  a \<^verbatim>\<open>Scanner Error\<close> is never taken.
\<close>

definition scan_file ::
  "(byte list \<Rightarrow> string) \<Rightarrow> string \<Rightarrow> string \<Rightarrow> file_data \<Rightarrow> ChanukaErrorExtractor
     \<Rightarrow> ChanukaErrorExtractor" where
  "scan_file decode root file fd self =
     (let file_path = path_join root file;
          file_ext = str_lower (path_suffix file_path)
      in case file_extensions file_ext of
           None \<Rightarrow> self
         | Some handler \<Rightarrow>
             (let self = run_checker handler decode self file_path fd
              in self\<lparr>file_count := file_count self + 1\<rparr>))"

fun scan_entry_file ::
  "(byte list \<Rightarrow> string) \<Rightarrow> string \<Rightarrow> entry \<Rightarrow> ChanukaErrorExtractor \<Rightarrow> ChanukaErrorExtractor" where
  "scan_entry_file decode root (File file fd) self = scan_file decode root file fd self"
| "scan_entry_file decode root (Dir d sub) self = self"

text \<open>
  \<^verbatim>\<open>_scan_directory\<close> over \<^verbatim>\<open>os.walk\<close>, top down: the files of a directory are handled first,
  then \<^verbatim>\<open>dirs\<close> is cut down to the names outside \<^verbatim>\<open>skip_dirs\<close>, and the walk goes into the
  directories left, in order.
\<close>

fun scan_directory ::
  "(byte list \<Rightarrow> string) \<Rightarrow> string \<Rightarrow> entry list \<Rightarrow> ChanukaErrorExtractor \<Rightarrow> ChanukaErrorExtractor"
  and walk_dirs ::
  "(byte list \<Rightarrow> string) \<Rightarrow> string \<Rightarrow> entry list \<Rightarrow> ChanukaErrorExtractor \<Rightarrow> ChanukaErrorExtractor" where
  "scan_directory decode root entries self =
     walk_dirs decode root entries (fold (scan_entry_file decode root) entries self)"
| "walk_dirs decode root [] self = self"
| "walk_dirs decode root (File file fd # entries) self = walk_dirs decode root entries self"
| "walk_dirs decode root (Dir d sub # entries) self =
     (if d \<notin> skip_dirs self
      then walk_dirs decode root entries (scan_directory decode (path_join root d) sub self)
      else walk_dirs decode root entries self)"

fun lookup_dir :: "entry list \<Rightarrow> string list \<Rightarrow> entry list option" where
  \<comment> \<open>the entries of the directory reached by the given names, if it exists and is a directory\<close>
  "lookup_dir entries [] = Some entries"
| "lookup_dir entries (d # ds) =
     (case find (\<lambda>e. case e of Dir nm _ \<Rightarrow> nm = d | File _ _ \<Rightarrow> False) entries of
        Some (Dir _ sub) \<Rightarrow> lookup_dir sub ds
      | _ \<Rightarrow> None)"

definition scan_codebase ::
  "(byte list \<Rightarrow> string) \<Rightarrow> entry list \<Rightarrow> ChanukaErrorExtractor \<Rightarrow> ChanukaErrorExtractor" where
  \<comment> \<open>\<open>tree\<close> is the content of \<^verbatim>\<open>self.root_dir\<close>\<close>
  "scan_codebase decode tree self =
     (let scan_dirs =
            concat (map (\<lambda>possible_dir.
                           case lookup_dir tree (str_split CHR ''/'' possible_dir) of
                             Some sub \<Rightarrow> [(path_join (root_dir self) possible_dir, sub)]
                           | None \<Rightarrow> [])
                        [''client/src'', ''server'', ''shared'', ''src'']);
          scan_dirs = (if scan_dirs = [] then [(root_dir self, tree)] else scan_dirs)
      in fold (\<lambda>(scan_dir, sub). scan_directory decode scan_dir sub) scan_dirs self)"

section \<open>Statistics and the report\<close>

fun incr :: "string \<Rightarrow> (string \<times> nat) list \<Rightarrow> (string \<times> nat) list" where
  \<comment> \<open>\<^verbatim>\<open>d[k] += 1\<close> on a \<^verbatim>\<open>defaultdict(int)\<close>; a dictionary keeps its keys in insertion order\<close>
  "incr k [] = [(k, 1)]"
| "incr k ((k', n) # d) = (if k' = k then (k', n + 1) # d else (k', n) # incr k d)"

definition sorted_reverse :: "('a \<Rightarrow> 'k::linorder) \<Rightarrow> 'a list \<Rightarrow> 'a list" where
  \<comment> \<open>\<^verbatim>\<open>sorted(xs, key=f, reverse=True)\<close>: the list is reversed, sorted stably, and reversed again\<close>
  "sorted_reverse f xs = rev (sort_key f (rev xs))"

definition tally :: "Finding \<Rightarrow> Statistics \<Rightarrow> Statistics" where
  \<comment> \<open>the body of the loop of \<^verbatim>\<open>generate_statistics\<close>\<close>
  "tally error stats =
     stats\<lparr>by_severity := incr (Finding.severity error) (by_severity stats),
           by_type := incr (error_type error) (by_type stats),
           by_module := incr (module error) (by_module stats),
           by_file := incr (relative_path error) (by_file stats)\<rparr>"

definition generate_statistics :: "ChanukaErrorExtractor \<Rightarrow> Statistics" where
  "generate_statistics self =
     (let stats = \<lparr>total_errors = length (errors self),
                   by_severity = [], by_type = [], by_module = [], by_file = [],
                   top_errors = [], critical_files = []\<rparr>;
          stats = fold tally (errors self) stats;
          sorted_types = sorted_reverse snd (by_type stats);
          stats = stats\<lparr>top_errors := take 15 sorted_types\<rparr>;
          sorted_files = sorted_reverse snd (by_file stats);
          stats = stats\<lparr>critical_files := take 10 sorted_files\<rparr>
      in stats)"

definition severity_rank :: "string \<Rightarrow> nat" where
  \<comment> \<open>\<^verbatim>\<open>{"critical": 0, "error": 1, "warning": 2, "info": 3}.get(s, 4)\<close>\<close>
  "severity_rank s =
     (case map_of [(''critical'', 0), (''error'', 1), (''warning'', 2), (''info'', 3)] s of
        Some r \<Rightarrow> r
      | None \<Rightarrow> 4)"

definition sort_key_of :: "Finding \<Rightarrow> nat \<times> string \<times> nat" where
  \<comment> \<open>the key of the sort in \<^verbatim>\<open>save_to_json\<close>\<close>
  "sort_key_of x = (severity_rank (Finding.severity x), file' x, line x)"

definition save_to_json :: "ChanukaErrorExtractor \<Rightarrow> Report" where
  \<comment> \<open>the document that \<^verbatim>\<open>save_to_json\<close> writes, without \<^verbatim>\<open>scan_date\<close>\<close>
  "save_to_json self =
     \<lparr>metadata =
        \<lparr>project = ''Chanuka Platform'',
         root_directory = root_dir self,
         Metadata.total_errors = length (errors self),
         files_scanned = file_count self,
         lines_scanned = scanned_lines self,
         tool = ''pattern-scanner'',
         version = ''2.0.0''\<rparr>,
      statistics = generate_statistics self,
      Report.errors = sort_key sort_key_of (errors self)\<rparr>"

section \<open>Notions used in the statements\<close>

definition comment_prefix :: "string \<Rightarrow> bool" where
  \<comment> \<open>the test that \<^verbatim>\<open>_check_patterns\<close> makes on the trimmed line:
      \<^verbatim>\<open>stripped.startswith('//') or stripped.startswith('*')\<close>\<close>
  "comment_prefix ln = (str_startswith (str_strip ln) ''//'' \<or> str_startswith (str_strip ln) ''*'')"

definition starts_with_comment_marker :: "string \<Rightarrow> bool" where
  \<comment> \<open>in the words of the specification: the trimmed line starts with a single-line comment
      marker, \<^verbatim>\<open>//\<close>, or with a block-comment marker, \<^verbatim>\<open>/*\<close> or \<^verbatim>\<open>*\<close>\<close>
  "starts_with_comment_marker ln =
     (str_startswith (str_strip ln) ''//'' \<or> str_startswith (str_strip ln) ''/*''
      \<or> str_startswith (str_strip ln) ''*'')"

definition reported :: "string \<Rightarrow> Pattern \<Rightarrow> bool" where
  \<comment> \<open>the rule matches the line and the match is not discarded\<close>
  "reported ln pattern =
     (pattern_search pattern ln
      \<and> (comment_prefix ln \<longrightarrow> name pattern \<in> set [''TODO'', ''FIXME'', ''BUG'', ''HACK'', ''XXX'']))"

definition rule_finding :: "ChanukaErrorExtractor \<Rightarrow> string \<Rightarrow> nat \<Rightarrow> string \<Rightarrow> Pattern \<Rightarrow> Finding" where
  \<comment> \<open>the finding recorded for a match of a rule on a line\<close>
  "rule_finding self file_path line_num ln pattern =
     error_dict self file_path (get_category self pattern @ name pattern)
       (Pattern.message pattern) line_num 0 (Pattern.severity pattern) (take 150 (str_strip ln))"

definition findings_of ::
  "ChanukaErrorExtractor \<Rightarrow> string \<Rightarrow> string list \<Rightarrow> Pattern list \<Rightarrow> Finding list" where
  \<comment> \<open>one finding for each line of at most 500 characters and each rule reported on it,
      line by line and, within a line, rule by rule\<close>
  "findings_of self file_path lines patterns =
     concat (map (\<lambda>(line_num, ln).
                    if length ln > 500 then []
                    else map (rule_finding self file_path line_num ln)
                           (filter (reported ln) patterns))
                 (enumerate 1 lines))"

definition read_error :: "ChanukaErrorExtractor \<Rightarrow> string \<Rightarrow> string \<Rightarrow> Finding" where
  \<comment> \<open>the synthetic finding recorded when a file cannot be read\<close>
  "read_error self file_path e = error_dict self file_path ''File Read Error'' e 0 0 ''error'' []"

definition framed :: "(ChanukaErrorExtractor \<Rightarrow> ChanukaErrorExtractor) \<Rightarrow> bool" where
  \<comment> \<open>a step of the scan appends findings and adds to the two counters, and what it appends
      and adds does not depend on the findings and counts so far\<close>
  "framed F =
     (\<forall>self. \<exists>new dc dl. \<forall>E c l.
        F (self\<lparr>errors := E, file_count := c, scanned_lines := l\<rparr>)
          = self\<lparr>errors := E @ new, file_count := c + dc, scanned_lines := l + dl\<rparr>)"

fun prune :: "string set \<Rightarrow> entry list \<Rightarrow> entry list" where
  \<comment> \<open>the tree without the directories named in \<open>S\<close>, at any depth\<close>
  "prune S [] = []"
| "prune S (File file fd # entries) = File file fd # prune S entries"
| "prune S (Dir d sub # entries) =
     (if d \<in> S then prune S entries else Dir d (prune S sub) # prune S entries)"

definition grouped_counts :: "string list \<Rightarrow> (string \<times> nat) list" where
  \<comment> \<open>each key with the number of its occurrences, the keys in the order of first occurrence\<close>
  "grouped_counts ks = map (\<lambda>k. (k, count_list ks k)) (rev (remdups (rev ks)))"

definition finding_in_bounds :: "Finding \<Rightarrow> bool" where
  \<comment> \<open>a snippet of at most 150 characters; line 0 and no snippet for a read failure, and a line
      number from 1 on for any other finding\<close>
  "finding_in_bounds f =
     (length (code_snippet f) \<le> 150
      \<and> (if error_type f = ''File Read Error'' then line f = 0 \<and> code_snippet f = []
         else 1 \<le> line f))"

definition sample_findings :: "Finding list" where
  \<comment> \<open>four findings for the examples, as \<^verbatim>\<open>add_error\<close> builds them under the root \<^verbatim>\<open>/proj\<close>\<close>
  "sample_findings =
     (let self = snd (ChanukaErrorExtractor_init ''/proj'' ''out.json'') in
      [error_dict self ''/proj/src/b.ts'' ''Code Quality - console.log'' ''Debug console.log''
         2 0 ''info'' ''console.log(x)'',
       error_dict self ''/proj/src/a.ts'' ''Code Quality - eval'' ''eval() used - security risk''
         5 0 ''critical'' ''eval(x)'',
       error_dict self ''/proj/src/a.ts'' ''Code Quality - TODO'' ''TODO comment''
         9 0 ''warning'' ''// TODO later'',
       error_dict self ''/proj/src/a.ts'' ''Code Quality - TODO'' ''TODO comment''
         1 0 ''warning'' ''// TODO first''])"

definition ascii :: "string \<Rightarrow> byte list" where
  \<comment> \<open>the bytes of a text of ASCII characters\<close>
  "ascii s = map (\<lambda>c. of_nat (of_char c)) s"

definition decode_ascii :: "byte list \<Rightarrow> string" where
  \<comment> \<open>a decoder for the examples: it keeps the bytes below 128 and drops the others, as
      \<^verbatim>\<open>read()\<close> does on bytes that hold no carriage return and no valid multi-byte sequence\<close>
  "decode_ascii b = map (\<lambda>x. char_of (unat x)) (filter (\<lambda>x. x < 128) b)"

section \<open>The bounds of the expression model are not reached\<close>

text \<open>
  Reading the tokens of a pattern and closing a set of positions under a repetition both run
  for a fixed number of rounds. The rounds are enough: the tokens of a pattern do not change
  when more rounds are allowed, and the positions that a repetition ends at are closed under
  one more repetition.
\<close>

lemma parse_set_rest:
  "parse_set acc s = Inr (its, rest) \<Longrightarrow> length rest < length s"
proof (induction acc s rule: parse_set.induct)
  case (1 acc)
  then show ?case by simp
next
  case (2 acc c)
  then show ?case by (simp split: if_splits)
next
  case (3 acc c d cs)
  then show ?case
    by (auto split: if_splits sum.splits)
qed

lemma parse_braces_rest:
  "parse_braces cs = BAtLeast m rest \<Longrightarrow> length rest \<le> length cs"
proof -
  assume a: "parse_braces cs = BAtLeast m rest"
  have 1: "length (dropWhile isdecimal cs) \<le> length cs"
    by (rule length_dropWhile_le)
  have 2: "length (dropWhile isdecimal (tl (dropWhile isdecimal cs)))
             \<le> length (tl (dropWhile isdecimal cs))"
    by (rule length_dropWhile_le)
  from a have "rest = tl (dropWhile isdecimal (tl (dropWhile isdecimal cs)))"
    by (simp add: parse_braces_def Let_def split: if_splits)
  with 1 2 show ?thesis by simp
qed

lemma lex1_rest: "length (snd (lex1 c cs)) \<le> length cs"
proof -
  have e: "length (snd (lex_escape cs)) \<le> length cs"
    by (simp add: lex_escape_def split: list.splits sum.splits)
  have s: "length (snd (lex_set cs)) \<le> length cs"
    using parse_set_rest [of "[]" "if take 1 cs = ''^'' then tl cs else cs"]
    by (auto simp: lex_set_def split: sum.splits if_splits)
  have r: "length (snd (lex_repeat m rest)) \<le> length rest" for m rest
    by (simp add: lex_repeat_def)
  have b: "length (snd (case parse_braces cs of
                         BLiteral \<Rightarrow> (TItem (Literal c), cs)
                       | BOther \<Rightarrow> (TError ''unsupported'', [])
                       | BAtLeast m rest \<Rightarrow> lex_repeat m rest)) \<le> length cs"
    using parse_braces_rest [of cs] r
    by (auto split: braces.splits intro: order_trans [OF r])
  have p: "length (snd (lex_open cs)) \<le> length cs"
    by (simp add: lex_open_def)
  from e s r b p show ?thesis
    by (simp add: lex1_def)
qed

lemma tokens_fuel_any:
  "length s \<le> n \<Longrightarrow> length s \<le> m \<Longrightarrow> tokens n s = tokens m s"
proof (induction n s arbitrary: m rule: tokens.induct)
  case (1 s)
  then show ?case by (cases m) simp_all
next
  case (2 n)
  then show ?case by (cases m) simp_all
next
  case (3 n c cs)
  from 3(3) obtain m' where m: "m = Suc m'" by (cases m) auto
  have "length (snd (lex1 c cs)) \<le> length cs" by (rule lex1_rest)
  with 3(2,3) m have "tokens n (snd (lex1 c cs)) = tokens m' (snd (lex1 c cs))"
    by (intro 3(1)) simp_all
  with m show ?case by simp
qed

lemma tokens_fuel: "length s \<le> n \<Longrightarrow> tokens n s = tokens (length s) s"
  by (rule tokens_fuel_any) simp_all

lemma set_re_step: "set (re_step f ps) = (\<Union>i\<in>set ps. set (f i))"
  by (simp add: re_step_def)

lemma re_step_pow_bound:
  assumes "\<And>i. i \<le> N \<Longrightarrow> set (f i) \<subseteq> {..N}"
  shows "set ps \<subseteq> {..N} \<Longrightarrow> set ((re_step f ^^ m) ps) \<subseteq> {..N}"
proof (induction m)
  case 0
  then show ?case by simp
next
  case (Suc m)
  then have "set ((re_step f ^^ m) ps) \<subseteq> {..N}" by simp
  then show ?case using assms by (auto simp: set_re_step)
qed

lemma re_closure_closed:
  assumes bound: "\<And>i. i \<le> N \<Longrightarrow> set (f i) \<subseteq> {..N}"
  shows "set acc \<subseteq> {..N} \<Longrightarrow> acc = [] \<or> card ({..N} - set acc) < n \<Longrightarrow>
           set acc \<subseteq> set (re_closure f n acc)
           \<and> set (re_closure f n acc) \<subseteq> {..N}
           \<and> (\<forall>i\<in>set (re_closure f n acc). set (f i) \<subseteq> set (re_closure f n acc))"
proof (induction n arbitrary: acc)
  case 0
  then have "acc = []" by simp
  then show ?case by simp
next
  case (Suc n)
  let ?new = "filter (\<lambda>j. j \<notin> set acc) (re_step f acc)"
  have step: "set (re_step f acc) \<subseteq> {..N}"
    using Suc.prems(1) bound by (auto simp: set_re_step)
  show ?case
  proof (cases "?new = []")
    case True
    then have "set (re_step f acc) \<subseteq> set acc"
      by (auto simp: filter_empty_conv)
    then have "\<forall>i\<in>set acc. set (f i) \<subseteq> set acc"
      by (auto simp: set_re_step)
    with True Suc.prems(1) show ?thesis by (simp add: Let_def)
  next
    case False
    then obtain j where j: "j \<in> set ?new" by (cases ?new) auto
    then have jN: "j \<in> {..N}" "j \<notin> set acc" using step by auto
    have sub: "set (acc @ ?new) \<subseteq> {..N}" using Suc.prems(1) step by auto
    have ne: "acc \<noteq> []" using j by (auto simp: set_re_step)
    have "{..N} - set (acc @ ?new) \<subset> {..N} - set acc" using j jN by auto
    then have "card ({..N} - set (acc @ ?new)) < card ({..N} - set acc)"
      by (intro psubset_card_mono) simp_all
    with Suc.prems(2) ne have "card ({..N} - set (acc @ ?new)) < n" by simp
    with Suc.IH [OF sub] have
      "set (acc @ ?new) \<subseteq> set (re_closure f n (acc @ ?new))
       \<and> set (re_closure f n (acc @ ?new)) \<subseteq> {..N}
       \<and> (\<forall>i\<in>set (re_closure f n (acc @ ?new)). set (f i) \<subseteq> set (re_closure f n (acc @ ?new)))"
      by blast
    with False show ?thesis by (simp add: Let_def)
  qed
qed

lemma re_closure_enough:
  assumes "\<And>i. i \<le> N \<Longrightarrow> set (f i) \<subseteq> {..N}" and "set acc \<subseteq> {..N}"
  shows "set acc \<subseteq> set (re_closure f (Suc N) acc)"
    and "set (re_closure f (Suc N) acc) \<subseteq> {..N}"
    and "\<forall>i\<in>set (re_closure f (Suc N) acc). set (f i) \<subseteq> set (re_closure f (Suc N) acc)"
proof -
  have "acc = [] \<or> card ({..N} - set acc) < Suc N"
  proof (cases acc)
    case Nil
    then show ?thesis by simp
  next
    case (Cons a as)
    with assms(2) have "a \<in> {..N}" "a \<in> set acc" by auto
    then have "{..N} - set acc \<subset> {..N}" by auto
    then have "card ({..N} - set acc) < card {..N}"
      by (intro psubset_card_mono) simp_all
    then show ?thesis by simp
  qed
  then have "set acc \<subseteq> set (re_closure f (Suc N) acc)
           \<and> set (re_closure f (Suc N) acc) \<subseteq> {..N}
           \<and> (\<forall>i\<in>set (re_closure f (Suc N) acc). set (f i) \<subseteq> set (re_closure f (Suc N) acc))"
    by (intro re_closure_closed assms)
  then show "set acc \<subseteq> set (re_closure f (Suc N) acc)"
    and "set (re_closure f (Suc N) acc) \<subseteq> {..N}"
    and "\<forall>i\<in>set (re_closure f (Suc N) acc). set (f i) \<subseteq> set (re_closure f (Suc N) acc)"
    by blast+
qed

lemma re_ends_bound: "i \<le> length s \<Longrightarrow> set (re_ends r s i) \<subseteq> {..length s}"
proof (induction r arbitrary: i)
  case (Cat a b)
  then show ?case by (auto simp: set_re_step)
next
  case (Or a b)
  then show ?case by auto
next
  case (AtLeast m r)
  have b: "\<And>j. j \<le> length s \<Longrightarrow> set (re_ends r s j) \<subseteq> {..length s}"
    by (rule AtLeast.IH)
  have "set ((re_step (re_ends r s) ^^ m) [i]) \<subseteq> {..length s}"
    by (rule re_step_pow_bound [OF b]) (use AtLeast.prems in simp_all)
  from re_closure_enough(2) [OF b this] show ?case by simp
qed (auto split: if_splits)

lemma re_ends_AtLeast_closed:
  assumes "i \<le> length s"
  shows "set ((re_step (re_ends r s) ^^ m) [i]) \<subseteq> set (re_ends (AtLeast m r) s i)"
    and "\<forall>j\<in>set (re_ends (AtLeast m r) s i). set (re_ends r s j) \<subseteq> set (re_ends (AtLeast m r) s i)"
proof -
  have b: "\<And>j. j \<le> length s \<Longrightarrow> set (re_ends r s j) \<subseteq> {..length s}"
    by (rule re_ends_bound)
  have a: "set ((re_step (re_ends r s) ^^ m) [i]) \<subseteq> {..length s}"
    by (rule re_step_pow_bound [OF b]) (use assms in simp_all)
  from re_closure_enough(1) [OF b a]
  show "set ((re_step (re_ends r s) ^^ m) [i]) \<subseteq> set (re_ends (AtLeast m r) s i)" by simp
  from re_closure_enough(3) [OF b a]
  show "\<forall>j\<in>set (re_ends (AtLeast m r) s i). set (re_ends r s j) \<subseteq> set (re_ends (AtLeast m r) s i)"
    by simp
qed

section \<open>How a step of the scan changes the session\<close>

lemma length_str_split: "length (str_split c s) = count_list s c + 1"
  by (induction s) (auto split: list.splits)

lemma error_dict_update [simp]:
  "error_dict (self\<lparr>errors := E\<rparr>) = error_dict self"
  "error_dict (self\<lparr>file_count := k\<rparr>) = error_dict self"
  "error_dict (self\<lparr>scanned_lines := k\<rparr>) = error_dict self"
  by (simp_all add: error_dict_def fun_eq_iff)

lemma get_category_update [simp]:
  "get_category (self\<lparr>errors := E\<rparr>) = get_category self"
  "get_category (self\<lparr>file_count := k\<rparr>) = get_category self"
  "get_category (self\<lparr>scanned_lines := k\<rparr>) = get_category self"
  by (simp_all add: get_category_def fun_eq_iff)

lemma rule_finding_update [simp]:
  "rule_finding (self\<lparr>errors := E\<rparr>) = rule_finding self"
  "rule_finding (self\<lparr>file_count := k\<rparr>) = rule_finding self"
  "rule_finding (self\<lparr>scanned_lines := k\<rparr>) = rule_finding self"
  by (simp_all add: rule_finding_def fun_eq_iff)

lemma findings_of_update [simp]:
  "findings_of (self\<lparr>errors := E\<rparr>) = findings_of self"
  "findings_of (self\<lparr>file_count := k\<rparr>) = findings_of self"
  "findings_of (self\<lparr>scanned_lines := k\<rparr>) = findings_of self"
  by (simp_all add: findings_of_def fun_eq_iff cong: if_cong)

lemma read_error_update [simp]:
  "read_error (self\<lparr>errors := E\<rparr>) = read_error self"
  "read_error (self\<lparr>file_count := k\<rparr>) = read_error self"
  "read_error (self\<lparr>scanned_lines := k\<rparr>) = read_error self"
  by (simp_all add: read_error_def fun_eq_iff)

lemma check_pattern_eq:
  "check_pattern fp n l p self =
     (if reported l p then self\<lparr>errors := errors self @ [rule_finding self fp n l p]\<rparr> else self)"
  by (auto simp: check_pattern_def reported_def comment_prefix_def rule_finding_def add_error_def Let_def)

lemma fold_check_pattern:
  "fold (check_pattern fp n l) ps self =
     self\<lparr>errors := errors self @ map (rule_finding self fp n l) (filter (reported l) ps)\<rparr>"
  by (induction ps arbitrary: self) (simp_all add: check_pattern_eq)

lemma fold_check_line:
  "fold (check_line fp ps) nls self =
     self\<lparr>errors := errors self
            @ concat (map (\<lambda>(n, l). if length l > 500 then []
                                     else map (rule_finding self fp n l) (filter (reported l) ps)) nls)\<rparr>"
  by (induction nls arbitrary: self) (simp_all add: check_line_def fold_check_pattern split_beta cong: if_cong)

lemma check_patterns_eq:
  "check_patterns self fp ls ps = self\<lparr>errors := errors self @ findings_of self fp ls ps\<rparr>"
  by (simp add: check_patterns_def findings_of_def fold_check_line)

lemma check_typescript_file_Content:
  "check_typescript_file decode self fp (Content b) =
     self\<lparr>errors := errors self
              @ findings_of self fp (str_split newline (decode b)) (typescript_patterns self)
              @ findings_of self fp (str_split newline (decode b)) (common_patterns self)
              @ findings_of self fp (str_split newline (decode b)) (import_patterns self),
           scanned_lines := scanned_lines self + length (str_split newline (decode b))\<rparr>"
  by (simp add: check_typescript_file_def check_patterns_eq Let_def)

lemma check_react_file_Content:
  "check_react_file decode self fp (Content b) =
     self\<lparr>errors := errors self
              @ findings_of self fp (str_split newline (decode b)) (react_patterns self)
              @ findings_of self fp (str_split newline (decode b)) (typescript_patterns self)
              @ findings_of self fp (str_split newline (decode b)) (common_patterns self)
              @ findings_of self fp (str_split newline (decode b)) (import_patterns self),
           scanned_lines := scanned_lines self + length (str_split newline (decode b))\<rparr>"
  by (simp add: check_react_file_def check_patterns_eq Let_def)

lemma check_typescript_file_Unreadable:
  "check_typescript_file decode self fp (Unreadable e) =
     self\<lparr>errors := errors self @ [read_error self fp e]\<rparr>"
  by (simp add: check_typescript_file_def add_error_def read_error_def)

lemma check_react_file_Unreadable:
  "check_react_file decode self fp (Unreadable e) =
     self\<lparr>errors := errors self @ [read_error self fp e]\<rparr>"
  by (simp add: check_react_file_def add_error_def read_error_def)

section \<open>Steps that only append findings and add to the counters\<close>

lemma framedI:
  assumes "\<And>self. \<exists>new dc dl. \<forall>E c l.
        F (self\<lparr>errors := E, file_count := c, scanned_lines := l\<rparr>)
          = self\<lparr>errors := E @ new, file_count := c + dc, scanned_lines := l + dl\<rparr>"
  shows "framed F"
  using assms by (simp add: framed_def)

lemma framedD:
  assumes "framed F"
  shows "\<exists>new dc dl. \<forall>E c l.
        F (self\<lparr>errors := E, file_count := c, scanned_lines := l\<rparr>)
          = self\<lparr>errors := E @ new, file_count := c + dc, scanned_lines := l + dl\<rparr>"
  using assms unfolding framed_def by blast

lemma framed_self:
  assumes "framed F"
  obtains new dc dl where
    "F self = self\<lparr>errors := errors self @ new, file_count := file_count self + dc,
                    scanned_lines := scanned_lines self + dl\<rparr>"
proof -
  from assms obtain new dc dl where *: "\<And>E c l.
        F (self\<lparr>errors := E, file_count := c, scanned_lines := l\<rparr>)
          = self\<lparr>errors := E @ new, file_count := c + dc, scanned_lines := l + dl\<rparr>"
    using framedD [of F self] by blast
  from *[where E = "errors self" and c = "file_count self" and l = "scanned_lines self"] that show thesis
    by simp
qed

lemma framed_id: "framed (\<lambda>self. self)"
proof (rule framedI)
  fix self :: ChanukaErrorExtractor
  have "\<forall>E c l. self\<lparr>errors := E, file_count := c, scanned_lines := l\<rparr>
          = self\<lparr>errors := E @ [], file_count := c + 0, scanned_lines := l + 0\<rparr>"
    by simp
  then show "\<exists>new dc dl. \<forall>E c l. self\<lparr>errors := E, file_count := c, scanned_lines := l\<rparr>
          = self\<lparr>errors := E @ new, file_count := c + dc, scanned_lines := l + dl\<rparr>"
    by blast
qed

lemma framed_comp:
  assumes F: "framed F" and G: "framed G"
  shows "framed (\<lambda>self. G (F self))"
proof (rule framedI)
  fix self :: ChanukaErrorExtractor
  obtain n1 c1 l1 where 1: "\<And>E c l.
        F (self\<lparr>errors := E, file_count := c, scanned_lines := l\<rparr>)
          = self\<lparr>errors := E @ n1, file_count := c + c1, scanned_lines := l + l1\<rparr>"
    using framedD [OF F, of self] by blast
  obtain n2 c2 l2 where 2: "\<And>E c l.
        G (self\<lparr>errors := E, file_count := c, scanned_lines := l\<rparr>)
          = self\<lparr>errors := E @ n2, file_count := c + c2, scanned_lines := l + l2\<rparr>"
    using framedD [OF G, of self] by blast
  have "\<forall>E c l. G (F (self\<lparr>errors := E, file_count := c, scanned_lines := l\<rparr>))
          = self\<lparr>errors := E @ (n1 @ n2), file_count := c + (c1 + c2),
                 scanned_lines := l + (l1 + l2)\<rparr>"
    by (simp add: 1 2 add.assoc)
  then show "\<exists>new dc dl. \<forall>E c l.
        G (F (self\<lparr>errors := E, file_count := c, scanned_lines := l\<rparr>))
          = self\<lparr>errors := E @ new, file_count := c + dc, scanned_lines := l + dl\<rparr>"
    by blast
qed

lemma framed_fold:
  assumes "\<And>x. x \<in> set xs \<Longrightarrow> framed (f x)"
  shows "framed (fold f xs)"
  using assms
proof (induction xs)
  case Nil
  show ?case using framed_id by (simp add: id_def)
next
  case (Cons x xs)
  have "framed (\<lambda>self. fold f xs (f x self))"
    by (rule framed_comp) (simp_all add: Cons)
  then show ?case by (simp add: comp_def)
qed

declare scan_directory.simps [simp del]

lemma framed_intro:
  assumes "\<And>self E c l.
        F (self\<lparr>errors := E, file_count := c, scanned_lines := l\<rparr>)
          = self\<lparr>errors := E @ new self, file_count := c + dc self,
                 scanned_lines := l + dl self\<rparr>"
  shows "framed F"
  unfolding framed_def using assms by blast

lemma framed_config:
  assumes "framed F"
  shows "skip_dirs (F self) = skip_dirs self"
    and "root_dir (F self) = root_dir self"
    and "typescript_patterns (F self) = typescript_patterns self"
    and "react_patterns (F self) = react_patterns self"
    and "common_patterns (F self) = common_patterns self"
    and "import_patterns (F self) = import_patterns self"
proof -
  obtain new dc dl where
    "F self = self\<lparr>errors := errors self @ new, file_count := file_count self + dc,
                    scanned_lines := scanned_lines self + dl\<rparr>"
    using assms by (rule framed_self)
  then show "skip_dirs (F self) = skip_dirs self"
    and "root_dir (F self) = root_dir self"
    and "typescript_patterns (F self) = typescript_patterns self"
    and "react_patterns (F self) = react_patterns self"
    and "common_patterns (F self) = common_patterns self"
    and "import_patterns (F self) = import_patterns self"
    by simp_all
qed

lemma framed_check_typescript_file:
  "framed (\<lambda>self. check_typescript_file decode self fp fd)"
proof (cases fd)
  case (Unreadable e)
  show ?thesis
    by (rule framed_intro [where new = "\<lambda>self. [read_error self fp e]" and dc = "\<lambda>_. 0"
          and dl = "\<lambda>_. 0"])
       (simp add: Unreadable check_typescript_file_Unreadable)
next
  case (Content b)
  show ?thesis
    by (rule framed_intro [where
          new = "\<lambda>self. findings_of self fp (str_split newline (decode b)) (typescript_patterns self)
              @ findings_of self fp (str_split newline (decode b)) (common_patterns self)
              @ findings_of self fp (str_split newline (decode b)) (import_patterns self)"
          and dc = "\<lambda>_. 0" and dl = "\<lambda>_. length (str_split newline (decode b))"])
       (simp add: Content check_typescript_file_Content)
qed

lemma framed_check_react_file:
  "framed (\<lambda>self. check_react_file decode self fp fd)"
proof (cases fd)
  case (Unreadable e)
  show ?thesis
    by (rule framed_intro [where new = "\<lambda>self. [read_error self fp e]" and dc = "\<lambda>_. 0"
          and dl = "\<lambda>_. 0"])
       (simp add: Unreadable check_react_file_Unreadable)
next
  case (Content b)
  show ?thesis
    by (rule framed_intro [where
          new = "\<lambda>self. findings_of self fp (str_split newline (decode b)) (react_patterns self)
              @ findings_of self fp (str_split newline (decode b)) (typescript_patterns self)
              @ findings_of self fp (str_split newline (decode b)) (common_patterns self)
              @ findings_of self fp (str_split newline (decode b)) (import_patterns self)"
          and dc = "\<lambda>_. 0" and dl = "\<lambda>_. length (str_split newline (decode b))"])
       (simp add: Content check_react_file_Content)
qed

lemma framed_run_checker:
  "framed (\<lambda>self. run_checker h decode self fp fd)"
  by (cases h)
     (simp_all add: framed_check_typescript_file framed_check_react_file check_javascript_file_def)

lemma framed_count: "framed (\<lambda>self. self\<lparr>file_count := file_count self + 1\<rparr>)"
  by (rule framed_intro [where new = "\<lambda>_. []" and dc = "\<lambda>_. 1" and dl = "\<lambda>_. 0"]) simp

lemma scan_file_eq:
  "scan_file decode root file fd self =
     (case file_extensions (str_lower (path_suffix (path_join root file))) of
        None \<Rightarrow> self
      | Some h \<Rightarrow> (run_checker h decode self (path_join root file) fd)
                    \<lparr>file_count := file_count (run_checker h decode self (path_join root file) fd) + 1\<rparr>)"
  by (simp add: scan_file_def Let_def split: option.splits)

lemma framed_scan_file: "framed (scan_file decode root file fd)"
proof (cases "file_extensions (str_lower (path_suffix (path_join root file)))")
  case None
  then have "scan_file decode root file fd = (\<lambda>self. self)"
    by (simp add: scan_file_eq fun_eq_iff)
  then show ?thesis by (simp add: framed_id)
next
  case (Some h)
  then have "scan_file decode root file fd =
      (\<lambda>self. (\<lambda>s. s\<lparr>file_count := file_count s + 1\<rparr>)
                 (run_checker h decode self (path_join root file) fd))"
    by (simp add: scan_file_eq fun_eq_iff)
  moreover have "framed (\<lambda>self. (\<lambda>s. s\<lparr>file_count := file_count s + 1\<rparr>)
                 (run_checker h decode self (path_join root file) fd))"
    by (rule framed_comp [OF framed_run_checker framed_count])
  ultimately show ?thesis by simp
qed

lemma framed_scan_entry_file: "framed (scan_entry_file decode root e)"
proof (cases e)
  case (File nm fd)
  have "scan_entry_file decode root (File nm fd) = scan_file decode root nm fd"
    by (simp add: fun_eq_iff)
  then show ?thesis by (simp add: File framed_scan_file)
next
  case (Dir d sub)
  have "scan_entry_file decode root (Dir d sub) = (\<lambda>self. self)"
    by (simp add: fun_eq_iff)
  then show ?thesis by (simp add: Dir framed_id)
qed

lemma framed_scan_files: "framed (fold (scan_entry_file decode root) entries)"
  by (rule framed_fold) (rule framed_scan_entry_file)

lemma framed_walk_dirs:
  assumes "\<And>d sub r. Dir d sub \<in> set entries \<Longrightarrow> framed (scan_directory decode r sub)"
  shows "framed (walk_dirs decode root entries)"
  using assms
proof (induction entries)
  case Nil
  have "walk_dirs decode root [] = (\<lambda>self. self)" by (simp add: fun_eq_iff)
  then show ?case by (simp add: framed_id)
next
  case (Cons e entries)
  have rest: "framed (walk_dirs decode root entries)"
    by (rule Cons.IH) (erule Cons.prems [OF list.set_intros(2)])
  show ?case
  proof (cases e)
    case (File nm fd)
    have "walk_dirs decode root (File nm fd # entries) = walk_dirs decode root entries"
      by (simp add: fun_eq_iff)
    then show ?thesis by (simp add: File rest)
  next
    case (Dir d sub)
    have sub: "framed (scan_directory decode (path_join root d) sub)"
      by (rule Cons.prems [of d]) (simp add: Dir)
    have both: "framed (\<lambda>self. walk_dirs decode root entries
                              (scan_directory decode (path_join root d) sub self))"
      by (rule framed_comp [OF sub rest])
    show ?thesis
      unfolding framed_def
    proof
      fix self
      show "\<exists>new dc dl. \<forall>E c l.
              walk_dirs decode root (e # entries)
                (self\<lparr>errors := E, file_count := c, scanned_lines := l\<rparr>)
              = self\<lparr>errors := E @ new, file_count := c + dc, scanned_lines := l + dl\<rparr>"
      proof (cases "d \<in> skip_dirs self")
        case True
        then show ?thesis using framedD [OF rest, of self] by (simp add: Dir)
      next
        case False
        then show ?thesis using framedD [OF both, of self] by (simp add: Dir)
      qed
    qed
  qed
qed

lemma framed_scan_directory: "framed (scan_directory decode root entries)"
proof -
  have "\<forall>d sub. e = Dir d sub \<longrightarrow> (\<forall>r. framed (scan_directory decode r sub))" for e
  proof (induction e)
    case (File nm fd)
    show ?case by simp
  next
    case (Dir d sub)
    have "framed (scan_directory decode r sub)" for r
    proof -
      have w: "framed (walk_dirs decode r sub)"
        by (rule framed_walk_dirs) (use Dir.IH in blast)
      have "scan_directory decode r sub =
              (\<lambda>self. walk_dirs decode r sub (fold (scan_entry_file decode r) sub self))"
        by (simp add: fun_eq_iff scan_directory.simps)
      moreover have "framed (\<lambda>self. walk_dirs decode r sub (fold (scan_entry_file decode r) sub self))"
        by (rule framed_comp [OF framed_scan_files w])
      ultimately show ?thesis by simp
    qed
    then show ?case by simp
  qed
  then show ?thesis by blast
qed

lemma framed_walk_dirs_any: "framed (walk_dirs decode root entries)"
  by (rule framed_walk_dirs) (rule framed_scan_directory)

section \<open>The walk without the ignored directories\<close>

lemma fold_scan_prune:
  "fold (scan_entry_file decode root) (prune S entries) self
     = fold (scan_entry_file decode root) entries self"
  by (induction S entries arbitrary: self rule: prune.induct) simp_all

lemma scan_prune:
  "skip_dirs self = S \<Longrightarrow>
     walk_dirs decode root (prune S entries) self = walk_dirs decode root entries self
     \<and> scan_directory decode root (prune S entries) self = scan_directory decode root entries self"
proof (induction S entries arbitrary: root self rule: prune.induct)
  case (1 S)
  show ?case by (simp add: scan_directory.simps)
next
  case (2 S nm fd entries)
  have s: "skip_dirs (scan_file decode root nm fd self) = S"
    using framed_config(1) [OF framed_scan_file] 2 by simp
  have s': "skip_dirs (fold (scan_entry_file decode root) entries (scan_file decode root nm fd self)) = S"
    using framed_config(1) [OF framed_scan_files] s by simp
  show ?case
    using 2 2(1) [OF s', of root] s'
    by (simp add: fold_scan_prune scan_directory.simps)
next
  case (3 S d sub entries)
  have f: "skip_dirs (fold (scan_entry_file decode root) entries self) = S"
    using framed_config(1) [OF framed_scan_files] 3 by simp
  show ?case
  proof (cases "d \<in> S")
    case True
    then show ?thesis
      using 3(1) [OF True 3(4), of root] 3(1) [OF True f, of root] 3(4) f
      by (simp add: fold_scan_prune scan_directory.simps)
  next
    case False
    have sub: "scan_directory decode r (prune S sub) s = scan_directory decode r sub s"
      if "skip_dirs s = S" for r s
      using 3(2) [OF False that] by simp
    have k: "skip_dirs (scan_directory decode r sub s) = S" if "skip_dirs s = S" for r s
      using framed_config(1) [OF framed_scan_directory] that by simp
    have w: "walk_dirs decode root (prune S entries) s = walk_dirs decode root entries s"
      if "skip_dirs s = S" for s
      using 3(3) [OF False that] by simp
    have wd: "walk_dirs decode root (prune S (Dir d sub # entries)) s
                = walk_dirs decode root (Dir d sub # entries) s"
      if "skip_dirs s = S" for s
      using False that by (simp add: sub k w)
    have "scan_directory decode root (prune S (Dir d sub # entries)) self
            = scan_directory decode root (Dir d sub # entries) self"
      unfolding scan_directory.simps fold_scan_prune by (rule wd) (simp add: f)
    then show ?thesis
      using wd [OF 3(4)] by simp
  qed
qed

lemma prune_append: "prune S (a @ b) = prune S a @ prune S b"
  by (induction S a rule: prune.induct) simp_all

section \<open>The findings of a file\<close>

lemma byte_of_char:
  "(of_char c :: nat) < 128 \<Longrightarrow>
     (of_nat (of_char c) :: byte) < 128 \<and> char_of (unat (of_nat (of_char c) :: byte)) = c"
  by (simp add: word_less_nat_alt unat_of_nat)

lemma decode_ascii_ascii:
  "\<forall>c\<in>set s. (of_char c :: nat) < 128 \<Longrightarrow> decode_ascii (ascii s) = s"
  by (induction s) (simp_all add: decode_ascii_def ascii_def byte_of_char)

lemma scanned_lines_init [simp]:
  "scanned_lines (snd (ChanukaErrorExtractor_init root out)) = 0"
  "file_count (snd (ChanukaErrorExtractor_init root out)) = 0"
  "errors (snd (ChanukaErrorExtractor_init root out)) = []"
  "root_dir (snd (ChanukaErrorExtractor_init root out)) = root"
  by (simp_all add: ChanukaErrorExtractor_init_def)

lemma rule_finding_sel [simp]:
  "line (rule_finding self fp n l p) = n"
  "column (rule_finding self fp n l p) = 0"
  "code_snippet (rule_finding self fp n l p) = take 150 (str_strip l)"
  "error_type (rule_finding self fp n l p) = get_category self p @ name p"
  "Finding.severity (rule_finding self fp n l p) = Pattern.severity p"
  "Finding.message (rule_finding self fp n l p) = Pattern.message p"
  "file' (rule_finding self fp n l p) = fp"
  by (simp_all add: rule_finding_def error_dict_def Let_def)

lemma read_error_sel [simp]:
  "line (read_error self fp e) = 0"
  "column (read_error self fp e) = 0"
  "code_snippet (read_error self fp e) = []"
  "error_type (read_error self fp e) = ''File Read Error''"
  "Finding.severity (read_error self fp e) = ''error''"
  "Finding.message (read_error self fp e) = e"
  "file' (read_error self fp e) = fp"
  by (simp_all add: read_error_def error_dict_def Let_def)

lemma rule_finding_not_read_error [simp]:
  "get_category self p @ name p \<noteq> ''File Read Error''"
  by (simp add: get_category_def)

lemma findings_of_mem:
  "f \<in> set (findings_of self fp ls ps) \<longleftrightarrow>
     (\<exists>n p. n < length ls \<and> length (ls ! n) \<le> 500 \<and> p \<in> set ps \<and> reported (ls ! n) p
            \<and> f = rule_finding self fp (Suc n) (ls ! n) p)"
proof
  assume "f \<in> set (findings_of self fp ls ps)"
  then obtain k l where kl: "(k, l) \<in> set (enumerate 1 ls)"
    and f: "f \<in> set (if length l > 500 then []
                       else map (rule_finding self fp k l) (filter (reported l) ps))"
    by (auto simp: findings_of_def)
  from kl have k: "1 \<le> k" "k < length ls + 1" "l = ls ! (k - 1)"
    by (auto simp: in_set_enumerate_eq)
  from f obtain p where "length l \<le> 500" "p \<in> set ps" "reported l p"
      "f = rule_finding self fp k l p"
    by (auto split: if_splits)
  with k show "\<exists>n p. n < length ls \<and> length (ls ! n) \<le> 500 \<and> p \<in> set ps \<and> reported (ls ! n) p
            \<and> f = rule_finding self fp (Suc n) (ls ! n) p"
    by (intro exI [of _ "k - 1"] exI [of _ p]) simp
next
  assume "\<exists>n p. n < length ls \<and> length (ls ! n) \<le> 500 \<and> p \<in> set ps \<and> reported (ls ! n) p
            \<and> f = rule_finding self fp (Suc n) (ls ! n) p"
  then obtain n p where *: "n < length ls" "length (ls ! n) \<le> 500" "p \<in> set ps"
      "reported (ls ! n) p" "f = rule_finding self fp (Suc n) (ls ! n) p"
    by blast
  then have mem: "(Suc n, ls ! n) \<in> set (enumerate 1 ls)"
    by (simp add: in_set_enumerate_eq)
  have fin: "f \<in> set (case (Suc n, ls ! n) of (k, l) \<Rightarrow>
                 if length l > 500 then []
                 else map (rule_finding self fp k l) (filter (reported l) ps))"
    using * by simp
  from mem fin show "f \<in> set (findings_of self fp ls ps)"
    unfolding findings_of_def set_concat set_map by blast
qed

lemma findings_of_bounds:
  assumes "f \<in> set (findings_of self fp ls ps)"
  shows "1 \<le> line f" and "line f \<le> length ls" and "length (ls ! (line f - 1)) \<le> 500"
    and "length (code_snippet f) \<le> 150" and "error_type f \<noteq> ''File Read Error''"
    and "\<exists>p\<in>set ps. reported (ls ! (line f - 1)) p \<and> error_type f = get_category self p @ name p"
  using assms by (auto simp: findings_of_mem)

lemma check_line_long:
  "length l > 500 \<Longrightarrow> check_line fp ps (n, l) self = self"
  by (simp add: check_line_def)

lemma scan_file_count:
  "file_extensions (str_lower (path_suffix (path_join root nm))) = Some h \<Longrightarrow>
     file_count (scan_file decode root nm fd self) = file_count self + 1"
proof -
  assume h: "file_extensions (str_lower (path_suffix (path_join root nm))) = Some h"
  obtain new dc dl where
    "run_checker h decode self (path_join root nm) fd
       = self\<lparr>errors := errors self @ new, file_count := file_count self + dc,
               scanned_lines := scanned_lines self + dl\<rparr>"
    using framed_run_checker by (rule framed_self)
  moreover have "file_count (run_checker h decode self (path_join root nm) fd) = file_count self"
    by (cases h; cases fd)
       (simp_all add: check_typescript_file_Content check_typescript_file_Unreadable
          check_react_file_Content check_react_file_Unreadable check_javascript_file_def)
  ultimately show ?thesis by (simp add: scan_file_eq h)
qed

lemma str_split_no_sep: "c \<notin> set s \<Longrightarrow> str_split c s = [s]"
  by (induction s) auto

lemma findings_of_single_long:
  "500 < length l \<Longrightarrow> findings_of self fp [l] ps = []"
  by (simp add: findings_of_def enumerate_simps)

section \<open>Invariants of the walk\<close>

lemma fold_scan_entry_file_invariant:
  assumes "\<And>self nm fd. I self \<Longrightarrow> I (scan_file decode root nm fd self)"
  shows "I self \<Longrightarrow> I (fold (scan_entry_file decode root) entries self)"
proof (induction entries arbitrary: self)
  case Nil
  then show ?case by simp
next
  case (Cons e entries)
  then show ?case by (cases e) (simp_all add: assms)
qed

lemma scan_file_invariant:
  assumes "\<And>self h fp fd. I self \<Longrightarrow> I (run_checker h decode self fp fd)"
    and "\<And>self. I self \<Longrightarrow> I (self\<lparr>file_count := file_count self + 1\<rparr>)"
  shows "I self \<Longrightarrow> I (scan_file decode root nm fd self)"
proof -
  assume i: "I self"
  show ?thesis
  proof (cases "file_extensions (str_lower (path_suffix (path_join root nm)))")
    case None
    with i show ?thesis by (simp add: scan_file_eq)
  next
    case (Some h)
    from assms(2) [OF assms(1) [OF i, of h "path_join root nm" fd]] Some
    show ?thesis by (simp add: scan_file_eq)
  qed
qed

lemma scan_invariant_aux:
  "(\<forall>self h fp fd. I self \<longrightarrow> I (run_checker h decode self fp fd)) \<Longrightarrow>
   (\<forall>self. I self \<longrightarrow> I (self\<lparr>file_count := file_count self + 1\<rparr>)) \<Longrightarrow>
   I self \<Longrightarrow> I (scan_directory decode root entries self)"
  "(\<forall>self h fp fd. I self \<longrightarrow> I (run_checker h decode self fp fd)) \<Longrightarrow>
   (\<forall>self. I self \<longrightarrow> I (self\<lparr>file_count := file_count self + 1\<rparr>)) \<Longrightarrow>
   I self \<Longrightarrow> I (walk_dirs decode root entries self)"
proof (induction decode root entries self and decode root entries self
       rule: scan_directory_walk_dirs.induct)
  case (1 decode root entries self)
  have "I (fold (scan_entry_file decode root) entries self)"
    by (rule fold_scan_entry_file_invariant [where I = I])
       (rule scan_file_invariant [where I = I], use 1 in auto)
  with 1 show ?case by (simp add: scan_directory.simps)
next
  case (2 decode root self)
  then show ?case by simp
next
  case (3 decode root nm fd entries self)
  then show ?case by simp
next
  case (4 decode root d sub entries self)
  then show ?case by simp
qed

lemma scan_directory_invariant:
  assumes "\<And>self h fp fd. I self \<Longrightarrow> I (run_checker h decode self fp fd)"
    and "\<And>self. I self \<Longrightarrow> I (self\<lparr>file_count := file_count self + 1\<rparr>)"
    and "I self"
  shows "I (scan_directory decode root entries self)"
  using scan_invariant_aux(1) [of I decode self root entries] assms by blast

lemma scan_codebase_invariant:
  assumes "\<And>self h fp fd. I self \<Longrightarrow> I (run_checker h decode self fp fd)"
    and "\<And>self. I self \<Longrightarrow> I (self\<lparr>file_count := file_count self + 1\<rparr>)"
    and "I self"
  shows "I (scan_codebase decode tree self)"
proof -
  have "I s \<Longrightarrow> I (fold (\<lambda>(scan_dir, sub). scan_directory decode scan_dir sub) ds s)" for ds s
  proof (induction ds arbitrary: s)
    case Nil
    then show ?case by simp
  next
    case (Cons a ds)
    then show ?case
      by (cases a) (simp add: scan_directory_invariant [where I = I, OF assms(1,2)])
  qed
  with assms(3) show ?thesis
    unfolding scan_codebase_def Let_def by blast
qed

lemma findings_of_in_bounds:
  "f \<in> set (findings_of self fp ls ps) \<Longrightarrow> finding_in_bounds f"
  using findings_of_bounds(1,4,5) [of f self fp ls ps] by (simp add: finding_in_bounds_def)

lemma read_error_in_bounds: "finding_in_bounds (read_error self fp e)"
  by (simp add: finding_in_bounds_def)

lemma run_checker_in_bounds:
  assumes "\<forall>f\<in>set (errors self). finding_in_bounds f"
  shows "\<forall>f\<in>set (errors (run_checker h decode self fp fd)). finding_in_bounds f"
  using assms
  by (cases h; cases fd)
     (auto simp: check_typescript_file_Content check_typescript_file_Unreadable
        check_react_file_Content check_react_file_Unreadable check_javascript_file_def
        read_error_in_bounds dest: findings_of_in_bounds)

section \<open>Unreadable files in a directory\<close>

lemma run_checker_Unreadable:
  "run_checker h decode self fp (Unreadable e) = self\<lparr>errors := errors self @ [read_error self fp e]\<rparr>"
  by (cases h)
     (simp_all add: check_typescript_file_Unreadable check_react_file_Unreadable
        check_javascript_file_def)

lemma scan_file_Unreadable:
  "file_extensions (str_lower (path_suffix (path_join root nm))) = Some h \<Longrightarrow>
   scan_file decode root nm (Unreadable e) self
     = self\<lparr>errors := errors self @ [read_error self (path_join root nm) e],
            file_count := file_count self + 1\<rparr>"
  by (simp add: scan_file_eq run_checker_Unreadable)

lemma walk_dirs_drop_file:
  "walk_dirs decode root (before @ File nm fd # after) self
     = walk_dirs decode root (before @ after) self"
proof (induction before arbitrary: self)
  case Nil
  show ?case by simp
next
  case (Cons e before)
  then show ?case by (cases e) simp_all
qed

lemma unreadable_file_inserted:
  assumes h: "file_extensions (str_lower (path_suffix (path_join root nm))) = Some h"
  shows "\<exists>xs ys dc dl.
           scan_directory decode root (before @ after) self
             = self\<lparr>errors := errors self @ xs @ ys, file_count := file_count self + dc,
                    scanned_lines := scanned_lines self + dl\<rparr>
           \<and> scan_directory decode root (before @ File nm (Unreadable e) # after) self
             = self\<lparr>errors := errors self @ xs @ [read_error self (path_join root nm) e] @ ys,
                    file_count := file_count self + dc + 1,
                    scanned_lines := scanned_lines self + dl\<rparr>"
proof -
  let ?sf = "scan_entry_file decode root"
  let ?G = "\<lambda>s. walk_dirs decode root (before @ after) (fold ?sf after s)"
  obtain n1 c1 l1 where s1: "fold ?sf before self
      = self\<lparr>errors := errors self @ n1, file_count := file_count self + c1,
             scanned_lines := scanned_lines self + l1\<rparr>"
    using framed_scan_files by (rule framed_self)
  have "framed ?G"
    by (rule framed_comp [OF framed_scan_files framed_walk_dirs_any])
  then obtain n2 c2 l2 where G: "\<And>E c l.
      ?G (self\<lparr>errors := E, file_count := c, scanned_lines := l\<rparr>)
        = self\<lparr>errors := E @ n2, file_count := c + c2, scanned_lines := l + l2\<rparr>"
    using framedD [of ?G self] by blast
  have without: "scan_directory decode root (before @ after) self
      = self\<lparr>errors := errors self @ n1 @ n2, file_count := file_count self + (c1 + c2),
             scanned_lines := scanned_lines self + (l1 + l2)\<rparr>"
    by (simp add: scan_directory.simps s1 G add.assoc)
  have "scan_directory decode root (before @ File nm (Unreadable e) # after) self
      = ?G (scan_file decode root nm (Unreadable e) (fold ?sf before self))"
    by (simp add: scan_directory.simps walk_dirs_drop_file)
  also have "scan_file decode root nm (Unreadable e) (fold ?sf before self)
      = self\<lparr>errors := errors self @ n1 @ [read_error self (path_join root nm) e],
             file_count := file_count self + c1 + 1,
             scanned_lines := scanned_lines self + l1\<rparr>"
    by (simp add: scan_file_Unreadable [OF h] s1)
  also have "?G \<dots>
      = self\<lparr>errors := errors self @ n1 @ [read_error self (path_join root nm) e] @ n2,
             file_count := file_count self + (c1 + c2) + 1,
             scanned_lines := scanned_lines self + (l1 + l2)\<rparr>"
    by (simp add: G)
  finally show ?thesis using without by blast
qed

lemma ext_big_ts:
  "file_extensions (str_lower (path_suffix (path_join ''/proj/src'' ''big.ts'')))
     = Some Check_typescript_file"
  by code_simp

lemma ext_a_ts:
  "file_extensions (str_lower (path_suffix (path_join ''/proj/src'' ''a.ts'')))
     = Some Check_typescript_file"
  by code_simp

lemma skip_dirs_init:
  "skip_dirs (snd (ChanukaErrorExtractor_init root out)) =
     {''node_modules'', ''.git'', ''__pycache__'', ''venv'', ''env'', ''.venv'',
      ''dist'', ''build'', ''.next'', ''target'', ''coverage'', ''test-results'',
      ''playwright-report'', ''drizzle'', ''backup'', ''tmp'', ''temp'', ''.cache'',
      ''out'', ''public'', ''static'', ''.turbo'', ''.vercel'', ''.netlify''}"
  by (simp add: ChanukaErrorExtractor_init_def)

section \<open>Examples\<close>

lemma scan_example:
  "scan_directory decode_ascii ''/proj/src''
     [File ''a.ts'' (Content (ascii ''// TODO fix this'' @ [255])),
      File ''c.tsx'' (Unreadable ''Permission denied''),
      File ''notes.txt'' (Content (ascii ''eval(x)''))]
     (snd (ChanukaErrorExtractor_init ''/proj'' ''out.json''))
   = (snd (ChanukaErrorExtractor_init ''/proj'' ''out.json''))
       \<lparr>errors :=
          [\<lparr>file' = ''/proj/src/a.ts'', relative_path = ''src/a.ts'', module = ''src'',
            error_type = ''Code Quality - TODO'', severity = ''warning'',
            message = ''TODO comment'', line = 1, column = 0,
            code_snippet = ''// TODO fix this''\<rparr>,
           \<lparr>file' = ''/proj/src/c.tsx'', relative_path = ''src/c.tsx'', module = ''src'',
            error_type = ''File Read Error'', severity = ''error'',
            message = ''Permission denied'', line = 0, column = 0, code_snippet = []\<rparr>],
        file_count := 2, scanned_lines := 1\<rparr>"
  by code_simp

lemma todo_example:
  "errors (check_typescript_file decode_ascii
     (snd (ChanukaErrorExtractor_init ''/proj'' ''out.json'')) ''/proj/src/a.ts''
     (Content (ascii ''// TODO fix this'')))
   = [\<lparr>file' = ''/proj/src/a.ts'', relative_path = ''src/a.ts'', module = ''src'',
       error_type = ''Code Quality - TODO'', severity = ''warning'',
       message = ''TODO comment'', line = 1, column = 0,
       code_snippet = ''// TODO fix this''\<rparr>]
   \<and> errors (check_react_file decode_ascii
     (snd (ChanukaErrorExtractor_init ''/proj'' ''out.json'')) ''/proj/src/a.tsx''
     (Content (ascii ''// TODO fix this'')))
   = [\<lparr>file' = ''/proj/src/a.tsx'', relative_path = ''src/a.tsx'', module = ''src'',
       error_type = ''Code Quality - TODO'', severity = ''warning'',
       message = ''TODO comment'', line = 1, column = 0,
       code_snippet = ''// TODO fix this''\<rparr>]"
  by code_simp

lemma comment_example:
  "errors (check_typescript_file decode_ascii
     (snd (ChanukaErrorExtractor_init ''/proj'' ''out.json'')) ''/proj/src/a.ts''
     (Content (ascii ''// const any = 5 as any''))) = []
   \<and> errors (check_react_file decode_ascii
     (snd (ChanukaErrorExtractor_init ''/proj'' ''out.json'')) ''/proj/src/a.tsx''
     (Content (ascii ''// const any = 5 as any''))) = []
   \<and> name (hd (typescript_patterns (snd (ChanukaErrorExtractor_init ''/proj'' ''out.json''))))
       = ''any_usage''
   \<and> pattern_search
        (hd (typescript_patterns (snd (ChanukaErrorExtractor_init ''/proj'' ''out.json''))))
        ''// const any = 5 as any''"
  by code_simp


lemma ext_c_tsx:
  "file_extensions (str_lower (path_suffix (path_join ''/proj/src'' ''c.tsx'')))
     = Some Check_react_file"
  by code_simp

lemma comment_prefix_examples:
  "comment_prefix ''// TODO fix this''" "comment_prefix ''// const any = 5 as any''"
  by code_simp+

lemma todo_rule_example:
  "pattern_search (hd (common_patterns (snd (ChanukaErrorExtractor_init ''/proj'' ''out.json''))))
     ''// TODO fix this''"
  by code_simp


lemma sample_report:
  "map (\<lambda>f. (Finding.severity f, file' f, line f))
     (Report.errors (save_to_json
        ((snd (ChanukaErrorExtractor_init ''/proj'' ''out.json''))\<lparr>errors := sample_findings\<rparr>)))
   = [(''critical'', ''/proj/src/a.ts'', 5), (''warning'', ''/proj/src/a.ts'', 1),
      (''warning'', ''/proj/src/a.ts'', 9), (''info'', ''/proj/src/b.ts'', 2)]"
  by code_simp

lemma sample_statistics:
  "generate_statistics
     ((snd (ChanukaErrorExtractor_init ''/proj'' ''out.json''))\<lparr>errors := sample_findings\<rparr>)
   = \<lparr>total_errors = 4,
      by_severity = [(''info'', 1), (''critical'', 1), (''warning'', 2)],
      by_type = [(''Code Quality - console.log'', 1), (''Code Quality - eval'', 1),
                 (''Code Quality - TODO'', 2)],
      by_module = [(''src'', 4)],
      by_file = [(''src/b.ts'', 1), (''src/a.ts'', 3)],
      top_errors = [(''Code Quality - TODO'', 2), (''Code Quality - console.log'', 1),
                    (''Code Quality - eval'', 1)],
      critical_files = [(''src/a.ts'', 3), (''src/b.ts'', 1)]\<rparr>"
  by code_simp

section \<open>Rules without a compiled expression\<close>

lemma name_Pattern_init [simp]: "name (snd (Pattern_init nm rx sev msg)) = nm"
  by (simp add: Pattern_init_def split: sum.splits)



section \<open>Sorting and counting\<close>

lemma sorted_reverse_descending: "sorted (rev (map f (sorted_reverse f d)))"
  by (simp add: sorted_reverse_def rev_map [symmetric])

lemma sorted_reverse_mset: "mset (sorted_reverse f d) = mset d"
  by (simp add: sorted_reverse_def)

lemma sorted_reverse_stable:
  "filter (\<lambda>x. f x = c) (sorted_reverse f d) = filter (\<lambda>x. f x = c) d"
  by (simp add: sorted_reverse_def rev_filter [symmetric] sort_key_stable)

lemma incr_map:
  "distinct D \<Longrightarrow>
     incr k (map (\<lambda>x. (x, c x)) D)
       = (if k \<in> set D then map (\<lambda>x. (x, if x = k then c x + 1 else c x)) D
          else map (\<lambda>x. (x, c x)) D @ [(k, 1)])"
proof (induction D)
  case Nil
  show ?case by simp
next
  case (Cons a D)
  show ?case
  proof (cases "a = k")
    case True
    with Cons.prems have "k \<notin> set D" by simp
    then have "map (\<lambda>x. (x, if x = k then c x + 1 else c x)) D = map (\<lambda>x. (x, c x)) D"
      by (intro map_cong) auto
    with True show ?thesis by simp
  next
    case False
    with Cons show ?thesis by simp
  qed
qed

lemma grouped_counts_snoc: "grouped_counts (ks @ [k]) = incr k (grouped_counts ks)"
proof -
  let ?D = "rev (remdups (rev ks))"
  have d: "distinct ?D" and s: "set ?D = set ks" by simp_all
  have i: "incr k (grouped_counts ks)
      = (if k \<in> set ks then map (\<lambda>x. (x, if x = k then count_list ks x + 1 else count_list ks x)) ?D
         else map (\<lambda>x. (x, count_list ks x)) ?D @ [(k, 1)])"
    unfolding grouped_counts_def using incr_map [OF d, of k "count_list ks"] s by simp
  show ?thesis
  proof (cases "k \<in> set ks")
    case True
    then have "grouped_counts (ks @ [k])
        = map (\<lambda>x. (x, count_list (ks @ [k]) x)) ?D"
      by (simp add: grouped_counts_def)
    also have "\<dots> = map (\<lambda>x. (x, if x = k then count_list ks x + 1 else count_list ks x)) ?D"
      by (intro map_cong) auto
    finally show ?thesis using True i by simp
  next
    case False
    then have "grouped_counts (ks @ [k])
        = map (\<lambda>x. (x, count_list (ks @ [k]) x)) (?D @ [k])"
      by (simp add: grouped_counts_def)
    also have "\<dots> = map (\<lambda>x. (x, count_list (ks @ [k]) x)) ?D @ [(k, 1)]"
      using False by (simp add: count_list_0_iff)
    also have "map (\<lambda>x. (x, count_list (ks @ [k]) x)) ?D = map (\<lambda>x. (x, count_list ks x)) ?D"
      using False by (intro map_cong) auto
    finally show ?thesis using False i by simp
  qed
qed

lemma fold_incr: "fold incr ks [] = grouped_counts ks"
proof (induction ks rule: rev_induct)
  case Nil
  show ?case by (simp add: grouped_counts_def)
next
  case (snoc k ks)
  then show ?case by (simp add: grouped_counts_snoc)
qed

lemma fold_tally:
  "by_severity (fold tally es st) = fold incr (map Finding.severity es) (by_severity st)"
  "by_type (fold tally es st) = fold incr (map error_type es) (by_type st)"
  "by_module (fold tally es st) = fold incr (map module es) (by_module st)"
  "by_file (fold tally es st) = fold incr (map relative_path es) (by_file st)"
  "Statistics.total_errors (fold tally es st) = Statistics.total_errors st"
  "top_errors (fold tally es st) = top_errors st"
  "critical_files (fold tally es st) = critical_files st"
  by (induction es arbitrary: st; simp add: tally_def)+

lemma generate_statistics_fields:
  "by_severity (generate_statistics self) = grouped_counts (map Finding.severity (errors self))"
  "by_type (generate_statistics self) = grouped_counts (map error_type (errors self))"
  "by_module (generate_statistics self) = grouped_counts (map module (errors self))"
  "by_file (generate_statistics self) = grouped_counts (map relative_path (errors self))"
  "Statistics.total_errors (generate_statistics self) = length (errors self)"
  "top_errors (generate_statistics self)
     = take 15 (sorted_reverse snd (grouped_counts (map error_type (errors self))))"
  "critical_files (generate_statistics self)
     = take 10 (sorted_reverse snd (grouped_counts (map relative_path (errors self))))"
  by (simp_all add: generate_statistics_def Let_def fold_tally fold_incr)

lemma severity_rank_values:
  "severity_rank ''critical'' = 0" "severity_rank ''error'' = 1"
  "severity_rank ''warning'' = 2" "severity_rank ''info'' = 3"
  by (simp_all add: severity_rank_def)

lemma report_errors_eq:
  "Report.errors (save_to_json self) = sort_key sort_key_of (errors self)"
  by (simp add: save_to_json_def)

section \<open>Matches on comment lines\<close>

text \<open>
  Claim C1 says that on every line whose trimmed form starts with a comment marker a match is
  discarded unless the rule is one of TODO, FIXME, BUG, HACK, XXX. The line
  \<^verbatim>\<open>/* const x: any = 1 */\<close> starts with the block-comment marker \<^verbatim>\<open>/*\<close>, and scanning it
  records the finding of the rule \<^verbatim>\<open>any_usage\<close>, which is not one of the five:
  \<^verbatim>\<open>_check_patterns\<close> tests the trimmed line for the prefixes \<^verbatim>\<open>//\<close> and \<^verbatim>\<open>*\<close> only.
\<close>

theorem block_comment_line_is_reported_counterexample:
  "starts_with_comment_marker ''/* const x: any = 1 */''
   \<and> ''any_usage'' \<notin> set [''TODO'', ''FIXME'', ''BUG'', ''HACK'', ''XXX'']
   \<and> errors (check_typescript_file decode_ascii
        (snd (ChanukaErrorExtractor_init ''/proj'' ''out.json'')) ''/proj/src/a.ts''
        (Content (ascii ''/* const x: any = 1 */'')))
      = [\<lparr>file' = ''/proj/src/a.ts'', relative_path = ''src/a.ts'', module = ''src'',
          error_type = ''TypeScript - any_usage'', severity = ''warning'',
          message = ''Usage of '' @ [CHR 0x22] @ ''any'' @ [CHR 0x22]
                      @ '' type reduces type safety'',
          line = 1, column = 0, code_snippet = ''/* const x: any = 1 */''\<rparr>]"
  by code_simp

text \<open>
  Claim C1, amended. On every scanned line whose trimmed form starts with \<^verbatim>\<open>//\<close> or with
  \<^verbatim>\<open>*\<close>, a match is discarded unless the rule is one of TODO, FIXME, BUG, HACK, XXX: every
  finding that \<^verbatim>\<open>_check_patterns\<close> records on such a line is the finding of one of these five
  rules that matches the line, each match of one of the five on such a line of at most 500
  characters is recorded, a rule that is not one of the five leaves the session as it is there,
  and lines that all start so give no finding at all under rules that are all outside the five.
  Scanning the line \<^verbatim>\<open>// TODO fix this\<close> gives exactly one finding, from the rule TODO; the
  rule \<^verbatim>\<open>any_usage\<close> matches the line \<^verbatim>\<open>// const any = 5 as any\<close>, and scanning that line
  gives no finding.
\<close>

theorem comment_lines_keep_only_marker_rules:
  "(\<exists>new. check_patterns self fp ls ps = self\<lparr>errors := errors self @ new\<rparr>
         \<and> (\<forall>f\<in>set new. comment_prefix (ls ! (line f - 1)) \<longrightarrow>
               (\<exists>p\<in>set ps. name p \<in> set [''TODO'', ''FIXME'', ''BUG'', ''HACK'', ''XXX'']
                   \<and> pattern_search p (ls ! (line f - 1))
                   \<and> f = rule_finding self fp (line f) (ls ! (line f - 1)) p))
         \<and> (\<forall>n p. n < length ls \<and> length (ls ! n) \<le> 500 \<and> comment_prefix (ls ! n)
                 \<and> p \<in> set ps \<and> name p \<in> set [''TODO'', ''FIXME'', ''BUG'', ''HACK'', ''XXX'']
                 \<and> pattern_search p (ls ! n)
               \<longrightarrow> rule_finding self fp (Suc n) (ls ! n) p \<in> set new))
   \<and> ((\<forall>l\<in>set ls. comment_prefix l)
        \<and> (\<forall>p\<in>set ps. name p \<notin> set [''TODO'', ''FIXME'', ''BUG'', ''HACK'', ''XXX''])
      \<longrightarrow> check_patterns self fp ls ps = self)
   \<and> (comment_prefix ln \<and> name pattern \<notin> set [''TODO'', ''FIXME'', ''BUG'', ''HACK'', ''XXX'']
      \<longrightarrow> check_pattern fp n' ln pattern self = self)
   \<and> errors (check_typescript_file decode_ascii
        (snd (ChanukaErrorExtractor_init ''/proj'' ''out.json'')) ''/proj/src/a.ts''
        (Content (ascii ''// TODO fix this'')))
      = [\<lparr>file' = ''/proj/src/a.ts'', relative_path = ''src/a.ts'', module = ''src'',
          error_type = ''Code Quality - TODO'', severity = ''warning'',
          message = ''TODO comment'', line = 1, column = 0,
          code_snippet = ''// TODO fix this''\<rparr>]
   \<and> name (hd (typescript_patterns (snd (ChanukaErrorExtractor_init ''/proj'' ''out.json''))))
       = ''any_usage''
   \<and> pattern_search
        (hd (typescript_patterns (snd (ChanukaErrorExtractor_init ''/proj'' ''out.json''))))
        ''// const any = 5 as any''
   \<and> errors (check_typescript_file decode_ascii
        (snd (ChanukaErrorExtractor_init ''/proj'' ''out.json'')) ''/proj/src/a.ts''
        (Content (ascii ''// const any = 5 as any''))) = []"
proof -
  let ?M = "set [''TODO'', ''FIXME'', ''BUG'', ''HACK'', ''XXX'']"
  let ?new = "findings_of self fp ls ps"
  have a: "\<forall>f\<in>set ?new. comment_prefix (ls ! (line f - 1)) \<longrightarrow>
               (\<exists>p\<in>set ps. name p \<in> ?M \<and> pattern_search p (ls ! (line f - 1))
                   \<and> f = rule_finding self fp (line f) (ls ! (line f - 1)) p)"
  proof (intro ballI impI)
    fix f
    assume f: "f \<in> set ?new" and c: "comment_prefix (ls ! (line f - 1))"
    from f obtain k p where kp: "k < length ls" "p \<in> set ps" "reported (ls ! k) p"
        "f = rule_finding self fp (Suc k) (ls ! k) p"
      unfolding findings_of_mem by blast
    then have l: "line f = Suc k" by simp
    with c kp(3) have "name p \<in> ?M" "pattern_search p (ls ! k)"
      by (simp_all add: reported_def)
    with kp l show "\<exists>p\<in>set ps. name p \<in> ?M \<and> pattern_search p (ls ! (line f - 1))
                   \<and> f = rule_finding self fp (line f) (ls ! (line f - 1)) p"
      by (intro bexI [of _ p]) simp_all
  qed
  have b: "\<forall>k p. k < length ls \<and> length (ls ! k) \<le> 500 \<and> comment_prefix (ls ! k)
                 \<and> p \<in> set ps \<and> name p \<in> ?M \<and> pattern_search p (ls ! k)
               \<longrightarrow> rule_finding self fp (Suc k) (ls ! k) p \<in> set ?new"
    unfolding findings_of_mem reported_def by blast
  have 1: "\<exists>new. check_patterns self fp ls ps = self\<lparr>errors := errors self @ new\<rparr>
         \<and> (\<forall>f\<in>set new. comment_prefix (ls ! (line f - 1)) \<longrightarrow>
               (\<exists>p\<in>set ps. name p \<in> ?M \<and> pattern_search p (ls ! (line f - 1))
                   \<and> f = rule_finding self fp (line f) (ls ! (line f - 1)) p))
         \<and> (\<forall>n p. n < length ls \<and> length (ls ! n) \<le> 500 \<and> comment_prefix (ls ! n)
                 \<and> p \<in> set ps \<and> name p \<in> ?M \<and> pattern_search p (ls ! n)
               \<longrightarrow> rule_finding self fp (Suc n) (ls ! n) p \<in> set new)"
    using check_patterns_eq [of self fp ls ps] a b by blast
  have 2: "(\<forall>l\<in>set ls. comment_prefix l) \<and> (\<forall>p\<in>set ps. name p \<notin> ?M)
      \<longrightarrow> check_patterns self fp ls ps = self"
  proof
    assume h: "(\<forall>l\<in>set ls. comment_prefix l) \<and> (\<forall>p\<in>set ps. name p \<notin> ?M)"
    have "?new = []"
    proof (cases ?new)
      case Nil
      then show ?thesis .
    next
      case (Cons f fs)
      then have "f \<in> set ?new" by simp
      then obtain k p where "k < length ls" "p \<in> set ps" "reported (ls ! k) p"
        unfolding findings_of_mem by blast
      with h show ?thesis unfolding reported_def by (metis nth_mem)
    qed
    then show "check_patterns self fp ls ps = self"
      by (simp add: check_patterns_eq)
  qed
  have 3: "comment_prefix ln \<and> name pattern \<notin> ?M
      \<longrightarrow> check_pattern fp n' ln pattern self = self"
    by (simp add: check_pattern_eq reported_def)
  from 1 2 3 todo_example comment_example show ?thesis by blast
qed

theorem comment_lines_keep_only_marker_rules_witness:
  "comment_prefix ''// const any = 5 as any''
   \<and> name (hd (typescript_patterns (snd (ChanukaErrorExtractor_init ''/proj'' ''out.json''))))
       \<notin> set [''TODO'', ''FIXME'', ''BUG'', ''HACK'', ''XXX'']
   \<and> check_pattern ''/proj/src/a.ts'' 1 ''// const any = 5 as any''
        (hd (typescript_patterns (snd (ChanukaErrorExtractor_init ''/proj'' ''out.json''))))
        (snd (ChanukaErrorExtractor_init ''/proj'' ''out.json''))
      = snd (ChanukaErrorExtractor_init ''/proj'' ''out.json'')
   \<and> check_patterns (snd (ChanukaErrorExtractor_init ''/proj'' ''out.json'')) ''/proj/src/a.ts''
        [''// const any = 5 as any'']
        [hd (typescript_patterns (snd (ChanukaErrorExtractor_init ''/proj'' ''out.json'')))]
      = snd (ChanukaErrorExtractor_init ''/proj'' ''out.json'')
   \<and> comment_prefix ''// TODO fix this''
   \<and> name (hd (common_patterns (snd (ChanukaErrorExtractor_init ''/proj'' ''out.json''))))
       = ''TODO''
   \<and> pattern_search (hd (common_patterns (snd (ChanukaErrorExtractor_init ''/proj'' ''out.json''))))
        ''// TODO fix this''
   \<and> rule_finding (snd (ChanukaErrorExtractor_init ''/proj'' ''out.json'')) ''/proj/src/a.ts'' 1
        ''// TODO fix this''
        (hd (common_patterns (snd (ChanukaErrorExtractor_init ''/proj'' ''out.json''))))
      \<in> set (errors (check_patterns (snd (ChanukaErrorExtractor_init ''/proj'' ''out.json''))
                 ''/proj/src/a.ts'' [''// TODO fix this'']
                 (common_patterns (snd (ChanukaErrorExtractor_init ''/proj'' ''out.json'')))))"
proof -
  let ?s = "snd (ChanukaErrorExtractor_init ''/proj'' ''out.json'')"
  let ?M = "set [''TODO'', ''FIXME'', ''BUG'', ''HACK'', ''XXX'']"
  let ?any = "hd (typescript_patterns ?s)"
  let ?todo = "hd (common_patterns ?s)"
  have n: "name ?any = ''any_usage''"
    using comment_example by blast
  have t: "name ?todo = ''TODO''" "?todo \<in> set (common_patterns ?s)"
    by (simp_all add: ChanukaErrorExtractor_init_def init_common_patterns_def)
  note thm1 = comment_lines_keep_only_marker_rules
         [of ?s "''/proj/src/a.ts''" "[''// const any = 5 as any'']" "[?any]"
             "''// const any = 5 as any''" ?any 1]
  from thm1 comment_prefix_examples(2) n
  have a: "check_pattern ''/proj/src/a.ts'' 1 ''// const any = 5 as any'' ?any ?s = ?s"
    and b: "check_patterns ?s ''/proj/src/a.ts'' [''// const any = 5 as any''] [?any] = ?s"
    by simp_all
  note thm2 = comment_lines_keep_only_marker_rules
         [of ?s "''/proj/src/a.ts''" "[''// TODO fix this'']" "common_patterns ?s"
             "''// TODO fix this''" ?todo 1]
  from thm2 obtain new where new:
      "check_patterns ?s ''/proj/src/a.ts'' [''// TODO fix this''] (common_patterns ?s)
         = ?s\<lparr>errors := errors ?s @ new\<rparr>"
      "\<forall>k p. k < length [''// TODO fix this''] \<and> length ([''// TODO fix this''] ! k) \<le> 500
           \<and> comment_prefix ([''// TODO fix this''] ! k)
           \<and> p \<in> set (common_patterns ?s) \<and> name p \<in> ?M
           \<and> pattern_search p ([''// TODO fix this''] ! k)
         \<longrightarrow> rule_finding ?s ''/proj/src/a.ts'' (Suc k) ([''// TODO fix this''] ! k) p \<in> set new"
    by blast
  from new(2) [rule_format, of 0 ?todo] t comment_prefix_examples(1) todo_rule_example
  have "rule_finding ?s ''/proj/src/a.ts'' 1 ''// TODO fix this'' ?todo \<in> set new"
    by simp
  with new(1) have c: "rule_finding ?s ''/proj/src/a.ts'' 1 ''// TODO fix this'' ?todo
      \<in> set (errors (check_patterns ?s ''/proj/src/a.ts'' [''// TODO fix this''] (common_patterns ?s)))"
    by simp
  from a b c n t comment_prefix_examples todo_rule_example show ?thesis by simp
qed

section \<open>Bounds of a finding\<close>

text \<open>
  Claim C2 says that every finding recorded, the synthetic read-failure findings included, has
  a line number of at least 1 and a snippet of at most 150 characters. The finding recorded for
  a file that cannot be read is at line 0, as the first theorem shows on a file whose reading
  fails.
\<close>

theorem read_failure_is_at_line_zero_counterexample:
  "map line (errors (scan_file decode_ascii ''/proj/src'' ''a.ts'' (Unreadable ''Permission denied'')
      (snd (ChanukaErrorExtractor_init ''/proj'' ''out.json'')))) = [0]"
  by (simp add: scan_file_eq ext_a_ts check_typescript_file_Unreadable)

text \<open>
  Claim C2, amended. Every finding recorded for a match of a rule has a line number of at least
  1 and a snippet of at most 150 characters; a synthetic read-failure finding has line number 0
  and an empty snippet. This holds for all the findings of a scan of a directory and of a scan
  of the code base, when it holds for the findings the session starts with.
\<close>

theorem findings_are_in_bounds:
  "(\<forall>f\<in>set (errors self). finding_in_bounds f) \<longrightarrow>
     (\<forall>f\<in>set (errors (scan_directory decode root entries self)). finding_in_bounds f)
     \<and> (\<forall>f\<in>set (errors (scan_codebase decode tree self)). finding_in_bounds f)"
proof
  assume a: "\<forall>f\<in>set (errors self). finding_in_bounds f"
  have 1: "\<forall>f\<in>set (errors (scan_directory decode root entries self)). finding_in_bounds f"
    by (rule scan_directory_invariant [where I = "\<lambda>s. \<forall>f\<in>set (errors s). finding_in_bounds f"])
       (simp_all add: run_checker_in_bounds a)
  have 2: "\<forall>f\<in>set (errors (scan_codebase decode tree self)). finding_in_bounds f"
    by (rule scan_codebase_invariant [where I = "\<lambda>s. \<forall>f\<in>set (errors s). finding_in_bounds f"])
       (simp_all add: run_checker_in_bounds a)
  from 1 2 show "(\<forall>f\<in>set (errors (scan_directory decode root entries self)). finding_in_bounds f)
     \<and> (\<forall>f\<in>set (errors (scan_codebase decode tree self)). finding_in_bounds f)"
    by blast
qed

theorem findings_are_in_bounds_witness:
  "errors (snd (ChanukaErrorExtractor_init ''/proj'' ''out.json'')) = []
   \<and> finding_in_bounds
       \<lparr>file' = ''/proj/src/a.ts'', relative_path = ''src/a.ts'', module = ''src'',
        error_type = ''Code Quality - TODO'', severity = ''warning'',
        message = ''TODO comment'', line = 1, column = 0,
        code_snippet = ''// TODO fix this''\<rparr>
   \<and> finding_in_bounds
       \<lparr>file' = ''/proj/src/c.tsx'', relative_path = ''src/c.tsx'', module = ''src'',
        error_type = ''File Read Error'', severity = ''error'',
        message = ''Permission denied'', line = 0, column = 0, code_snippet = []\<rparr>"
  using findings_are_in_bounds
          [of "snd (ChanukaErrorExtractor_init ''/proj'' ''out.json'')" decode_ascii "''/proj/src''"
              "[File ''a.ts'' (Content (ascii ''// TODO fix this'' @ [255])),
                File ''c.tsx'' (Unreadable ''Permission denied''),
                File ''notes.txt'' (Content (ascii ''eval(x)''))]" "[]"]
        scan_example
  by simp

section \<open>Order of the findings in the report\<close>

text \<open>
  Claim C3. The findings of the report are those of the session, sorted by severity rank, then
  by file path, then by line number: the keys are in ascending order, so of two findings the
  earlier has the smaller rank, or the same rank and the smaller path, or the same rank and path
  and a line number that is not greater; a finding of strictly higher priority comes before one
  of lower priority; critical ranks before error, error before warning, warning before info.
  The list is a rearrangement of the findings of the session, and findings with the same key
  keep the order they were recorded in, so the result is determined by the list of findings.
\<close>

theorem report_findings_are_sorted:
  "sorted (map sort_key_of (Report.errors (save_to_json self)))
   \<and> mset (Report.errors (save_to_json self)) = mset (errors self)
   \<and> filter (\<lambda>x. sort_key_of x = k) (Report.errors (save_to_json self))
       = filter (\<lambda>x. sort_key_of x = k) (errors self)
   \<and> (i < j \<and> j < length (Report.errors (save_to_json self)) \<longrightarrow>
        (let a = Report.errors (save_to_json self) ! i;
             b = Report.errors (save_to_json self) ! j
         in severity_rank (Finding.severity a) < severity_rank (Finding.severity b)
            \<or> severity_rank (Finding.severity a) = severity_rank (Finding.severity b)
              \<and> (file' a < file' b \<or> file' a = file' b \<and> line a \<le> line b)))
   \<and> (i < length (Report.errors (save_to_json self))
        \<and> j < length (Report.errors (save_to_json self))
        \<and> severity_rank (Finding.severity (Report.errors (save_to_json self) ! i))
            < severity_rank (Finding.severity (Report.errors (save_to_json self) ! j))
      \<longrightarrow> i < j)
   \<and> severity_rank ''critical'' < severity_rank ''error''
   \<and> severity_rank ''error'' < severity_rank ''warning''
   \<and> severity_rank ''warning'' < severity_rank ''info''"
proof -
  let ?out = "Report.errors (save_to_json self)"
  have s: "sorted (map sort_key_of ?out)"
    by (simp add: report_errors_eq)
  have le: "sort_key_of (?out ! a) \<le> sort_key_of (?out ! b)" if "a \<le> b" "b < length ?out" for a b
    using sorted_nth_mono [OF s, of a b] that by simp
  have 4: "i < j \<and> j < length ?out \<longrightarrow>
        (let a = ?out ! i; b = ?out ! j
         in severity_rank (Finding.severity a) < severity_rank (Finding.severity b)
            \<or> severity_rank (Finding.severity a) = severity_rank (Finding.severity b)
              \<and> (file' a < file' b \<or> file' a = file' b \<and> line a \<le> line b))"
  proof
    assume "i < j \<and> j < length ?out"
    then have "sort_key_of (?out ! i) \<le> sort_key_of (?out ! j)" by (intro le) simp_all
    then show "let a = ?out ! i; b = ?out ! j
         in severity_rank (Finding.severity a) < severity_rank (Finding.severity b)
            \<or> severity_rank (Finding.severity a) = severity_rank (Finding.severity b)
              \<and> (file' a < file' b \<or> file' a = file' b \<and> line a \<le> line b)"
      by (auto simp: sort_key_of_def less_eq_prod_def Let_def)
  qed
  have 5: "i < length ?out \<and> j < length ?out
        \<and> severity_rank (Finding.severity (?out ! i)) < severity_rank (Finding.severity (?out ! j))
      \<longrightarrow> i < j"
  proof (intro impI, elim conjE)
    assume ij: "i < length ?out" "j < length ?out"
      and r: "severity_rank (Finding.severity (?out ! i)) < severity_rank (Finding.severity (?out ! j))"
    show "i < j"
    proof (rule ccontr)
      assume "\<not> i < j"
      then have "sort_key_of (?out ! j) \<le> sort_key_of (?out ! i)" using ij by (intro le) simp_all
      with r show False by (auto simp: sort_key_of_def less_eq_prod_def)
    qed
  qed
  from s 4 5 show ?thesis
    by (simp add: report_errors_eq sort_key_stable severity_rank_values)
qed

theorem report_findings_are_sorted_witness:
  "(0::nat) < 1 \<and> (1::nat) < 4
   \<and> map (\<lambda>f. (Finding.severity f, file' f, line f))
       (Report.errors (save_to_json
          ((snd (ChanukaErrorExtractor_init ''/proj'' ''out.json''))\<lparr>errors := sample_findings\<rparr>)))
     = [(''critical'', ''/proj/src/a.ts'', 5), (''warning'', ''/proj/src/a.ts'', 1),
        (''warning'', ''/proj/src/a.ts'', 9), (''info'', ''/proj/src/b.ts'', 2)]
   \<and> severity_rank ''critical'' < severity_rank ''warning''"
  using report_findings_are_sorted
          [of "(snd (ChanukaErrorExtractor_init ''/proj'' ''out.json''))\<lparr>errors := sample_findings\<rparr>"
              "(0, ''/proj/src/a.ts'', 5)" 0 1]
        sample_report
  by (simp add: severity_rank_values)

section \<open>Long lines\<close>

text \<open>
  Claim C4. A line of more than 500 characters is skipped whatever rules are applied to it:
  the pass over the rules leaves the session as it is for such a line, and no finding that
  \<^verbatim>\<open>_check_patterns\<close> records carries the number of such a line. The file is counted all the
  same: a file with one of the four extensions adds one to \<^verbatim>\<open>file_count\<close>, whatever it
  holds.
\<close>

theorem long_lines_are_skipped:
  "(500 < length l \<longrightarrow> check_line fp ps (n, l) self = self)
   \<and> (\<exists>new. check_patterns self fp ls ps = self\<lparr>errors := errors self @ new\<rparr>
         \<and> (\<forall>f\<in>set new. 1 \<le> line f \<and> line f \<le> length ls
                \<and> length (ls ! (line f - 1)) \<le> 500))
   \<and> (file_extensions (str_lower (path_suffix (path_join root nm))) = Some h \<longrightarrow>
        file_count (scan_file decode root nm fd self) = file_count self + 1)"
proof (intro conjI impI)
  assume "500 < length l"
  then show "check_line fp ps (n, l) self = self" by (rule check_line_long)
next
  show "\<exists>new. check_patterns self fp ls ps = self\<lparr>errors := errors self @ new\<rparr>
         \<and> (\<forall>f\<in>set new. 1 \<le> line f \<and> line f \<le> length ls
                \<and> length (ls ! (line f - 1)) \<le> 500)"
    using check_patterns_eq [of self fp ls ps] findings_of_bounds(1,2,3) [of _ self fp ls ps]
    by blast
next
  assume "file_extensions (str_lower (path_suffix (path_join root nm))) = Some h"
  then show "file_count (scan_file decode root nm fd self) = file_count self + 1"
    by (rule scan_file_count)
qed

theorem long_lines_are_skipped_witness:
  "500 < length (replicate 600 CHR ''x'')
   \<and> check_line ''/proj/src/big.ts''
        (common_patterns (snd (ChanukaErrorExtractor_init ''/proj'' ''out.json'')))
        (1, replicate 600 CHR ''x'') (snd (ChanukaErrorExtractor_init ''/proj'' ''out.json''))
       = snd (ChanukaErrorExtractor_init ''/proj'' ''out.json'')
   \<and> file_extensions (str_lower (path_suffix (path_join ''/proj/src'' ''big.ts'')))
       = Some Check_typescript_file
   \<and> file_count (scan_file decode_ascii ''/proj/src'' ''big.ts''
        (Content (ascii (replicate 600 CHR ''x'')))
        (snd (ChanukaErrorExtractor_init ''/proj'' ''out.json''))) = 1
   \<and> errors (scan_file decode_ascii ''/proj/src'' ''big.ts''
        (Content (ascii (replicate 600 CHR ''x'')))
        (snd (ChanukaErrorExtractor_init ''/proj'' ''out.json''))) = []"
proof -
  let ?s = "snd (ChanukaErrorExtractor_init ''/proj'' ''out.json'')"
  let ?l = "replicate 600 CHR ''x''"
  have d: "decode_ascii (ascii ?l) = ?l"
    by (rule decode_ascii_ascii) simp
  have e: "errors (scan_file decode_ascii ''/proj/src'' ''big.ts'' (Content (ascii ?l)) ?s) = []"
    by (simp add: scan_file_eq ext_big_ts check_typescript_file_Content d str_split_no_sep
          findings_of_single_long)
  from long_lines_are_skipped
         [of ?l "''/proj/src/big.ts''" "common_patterns ?s" 1 ?s "[?l]" "''/proj/src''"
             "''big.ts''" Check_typescript_file decode_ascii "Content (ascii ?l)"]
       e ext_big_ts
  show ?thesis by simp
qed

section \<open>Ignored directories\<close>

text \<open>
  Claim C5. A directory met by the walk whose name is in \<^verbatim>\<open>skip_dirs\<close> is removed from the
  list of directories to visit before the walk goes down: the scan of a tree is the scan of the
  tree without every such directory, at any depth, so the findings, \<^verbatim>\<open>file_count\<close> and
  \<^verbatim>\<open>scanned_lines\<close> are what they would be if the directory and all it contains were absent.
\<close>

theorem ignored_directories_are_pruned:
  "scan_directory decode root (prune (skip_dirs self) entries) self
     = scan_directory decode root entries self
   \<and> (d \<in> skip_dirs self \<longrightarrow>
        scan_directory decode root (before @ Dir d sub # after) self
          = scan_directory decode root (before @ after) self)"
proof -
  have 1: "scan_directory decode root (prune (skip_dirs self) es) self
             = scan_directory decode root es self" for es
    using scan_prune [of self "skip_dirs self" decode root es] by simp
  have "scan_directory decode root (before @ Dir d sub # after) self
          = scan_directory decode root (before @ after) self" if "d \<in> skip_dirs self"
  proof -
    have "prune (skip_dirs self) (before @ Dir d sub # after)
            = prune (skip_dirs self) (before @ after)"
      using that by (simp add: prune_append)
    then show ?thesis
      using 1 [of "before @ Dir d sub # after"] 1 [of "before @ after"] by simp
  qed
  with 1 show ?thesis by blast
qed

theorem ignored_directories_are_pruned_witness:
  "''node_modules'' \<in> skip_dirs (snd (ChanukaErrorExtractor_init ''/proj'' ''out.json''))
   \<and> scan_directory decode_ascii ''/proj/src''
        [Dir ''node_modules'' [File ''index.js'' (Content (ascii ''eval(x)''))]]
        (snd (ChanukaErrorExtractor_init ''/proj'' ''out.json''))
      = snd (ChanukaErrorExtractor_init ''/proj'' ''out.json'')"
  using ignored_directories_are_pruned
          [of decode_ascii "''/proj/src''" "snd (ChanukaErrorExtractor_init ''/proj'' ''out.json'')"
              "[Dir ''node_modules'' [File ''index.js'' (Content (ascii ''eval(x)''))]]"
              "''node_modules''" "[]" "[File ''index.js'' (Content (ascii ''eval(x)''))]" "[]"]
  by (simp add: skip_dirs_init scan_directory.simps)

section \<open>Rules that do not compile\<close>



section \<open>Unreadable files\<close>

text \<open>
  Claim C7. A file with one of the four extensions whose content cannot be read adds exactly
  one finding, at line 0 and of type \<^verbatim>\<open>File Read Error\<close>, carrying the text of the exception.
  The other files are scanned as if it were absent: in a directory listing, the findings with
  the unreadable file are the findings without it with that one finding inserted, the lines
  counted are the same, and the files counted are one more, the unreadable file being counted
  itself.
\<close>

theorem unreadable_file_gives_one_finding:
  "file_extensions (str_lower (path_suffix (path_join root nm))) = Some h \<longrightarrow>
     scan_file decode root nm (Unreadable e) self
       = self\<lparr>errors := errors self @ [read_error self (path_join root nm) e],
              file_count := file_count self + 1\<rparr>
     \<and> line (read_error self (path_join root nm) e) = 0
     \<and> error_type (read_error self (path_join root nm) e) = ''File Read Error''
     \<and> Finding.message (read_error self (path_join root nm) e) = e
     \<and> (\<exists>xs ys.
           errors (scan_directory decode root (before @ after) self) = errors self @ xs @ ys
           \<and> errors (scan_directory decode root (before @ File nm (Unreadable e) # after) self)
               = errors self @ xs @ [read_error self (path_join root nm) e] @ ys)
     \<and> scanned_lines (scan_directory decode root (before @ File nm (Unreadable e) # after) self)
         = scanned_lines (scan_directory decode root (before @ after) self)
     \<and> file_count (scan_directory decode root (before @ File nm (Unreadable e) # after) self)
         = file_count (scan_directory decode root (before @ after) self) + 1"
proof
  assume h: "file_extensions (str_lower (path_suffix (path_join root nm))) = Some h"
  obtain xs ys dc dl where
    a: "scan_directory decode root (before @ after) self
             = self\<lparr>errors := errors self @ xs @ ys, file_count := file_count self + dc,
                    scanned_lines := scanned_lines self + dl\<rparr>"
    and b: "scan_directory decode root (before @ File nm (Unreadable e) # after) self
             = self\<lparr>errors := errors self @ xs @ [read_error self (path_join root nm) e] @ ys,
                    file_count := file_count self + dc + 1,
                    scanned_lines := scanned_lines self + dl\<rparr>"
    using unreadable_file_inserted [OF h, of decode before after self e] by blast
  have "\<exists>xs ys.
           errors (scan_directory decode root (before @ after) self) = errors self @ xs @ ys
           \<and> errors (scan_directory decode root (before @ File nm (Unreadable e) # after) self)
               = errors self @ xs @ [read_error self (path_join root nm) e] @ ys"
    unfolding a b by (intro exI [of _ xs] exI [of _ ys]) simp
  then show "scan_file decode root nm (Unreadable e) self
       = self\<lparr>errors := errors self @ [read_error self (path_join root nm) e],
              file_count := file_count self + 1\<rparr>
     \<and> line (read_error self (path_join root nm) e) = 0
     \<and> error_type (read_error self (path_join root nm) e) = ''File Read Error''
     \<and> Finding.message (read_error self (path_join root nm) e) = e
     \<and> (\<exists>xs ys.
           errors (scan_directory decode root (before @ after) self) = errors self @ xs @ ys
           \<and> errors (scan_directory decode root (before @ File nm (Unreadable e) # after) self)
               = errors self @ xs @ [read_error self (path_join root nm) e] @ ys)
     \<and> scanned_lines (scan_directory decode root (before @ File nm (Unreadable e) # after) self)
         = scanned_lines (scan_directory decode root (before @ after) self)
     \<and> file_count (scan_directory decode root (before @ File nm (Unreadable e) # after) self)
         = file_count (scan_directory decode root (before @ after) self) + 1"
    using scan_file_Unreadable [OF h, of decode e self] by (simp add: a b)
qed

theorem unreadable_file_gives_one_finding_witness:
  "file_extensions (str_lower (path_suffix (path_join ''/proj/src'' ''c.tsx'')))
     = Some Check_react_file
   \<and> line (read_error (snd (ChanukaErrorExtractor_init ''/proj'' ''out.json''))
             (path_join ''/proj/src'' ''c.tsx'') ''Permission denied'') = 0
   \<and> file_count (scan_directory decode_ascii ''/proj/src''
         [File ''a.ts'' (Content (ascii ''// TODO fix this'' @ [255])),
          File ''notes.txt'' (Content (ascii ''eval(x)''))]
         (snd (ChanukaErrorExtractor_init ''/proj'' ''out.json''))) + 1 = 2
   \<and> scanned_lines (scan_directory decode_ascii ''/proj/src''
         [File ''a.ts'' (Content (ascii ''// TODO fix this'' @ [255])),
          File ''notes.txt'' (Content (ascii ''eval(x)''))]
         (snd (ChanukaErrorExtractor_init ''/proj'' ''out.json''))) = 1"
  using unreadable_file_gives_one_finding
          [of "''/proj/src''" "''c.tsx''" Check_react_file decode_ascii "''Permission denied''"
              "snd (ChanukaErrorExtractor_init ''/proj'' ''out.json'')"
              "[File ''a.ts'' (Content (ascii ''// TODO fix this'' @ [255]))]"
              "[File ''notes.txt'' (Content (ascii ''eval(x)''))]"]
        scan_example ext_c_tsx
  by simp

section \<open>Statistics\<close>

text \<open>
  Claim C8. The statistics are a function of the list of findings alone: two sessions with the
  same findings have the same statistics. They hold the number of findings, the counts by
  severity, by rule identifier (the \<^verbatim>\<open>error_type\<close>, which for a rule match is the category label
  followed by the rule name), by module and by file, each key in the order of its first
  occurrence, the first 15 rule identifiers by descending count and the first 10 files by
  descending count. The ranking is a rearrangement in descending order of count that keeps
  entries of equal count in the order they have in the counts, which is the order of first
  occurrence.
\<close>

theorem statistics_are_grouped_counts:
  "by_severity (generate_statistics self) = grouped_counts (map Finding.severity (errors self))
   \<and> by_type (generate_statistics self) = grouped_counts (map error_type (errors self))
   \<and> by_module (generate_statistics self) = grouped_counts (map module (errors self))
   \<and> by_file (generate_statistics self) = grouped_counts (map relative_path (errors self))
   \<and> Statistics.total_errors (generate_statistics self) = length (errors self)
   \<and> top_errors (generate_statistics self)
       = take 15 (sorted_reverse snd (by_type (generate_statistics self)))
   \<and> critical_files (generate_statistics self)
       = take 10 (sorted_reverse snd (by_file (generate_statistics self)))
   \<and> sorted (rev (map snd (sorted_reverse snd d)))
   \<and> mset (sorted_reverse snd d) = mset d
   \<and> filter (\<lambda>x. snd x = c) (sorted_reverse snd d) = filter (\<lambda>x. snd x = c) d
   \<and> (errors self = errors other \<longrightarrow> generate_statistics self = generate_statistics other)
   \<and> error_type (rule_finding self fp n ln p) = get_category self p @ name p"
proof -
  have "errors self = errors other \<longrightarrow> generate_statistics self = generate_statistics other"
    by (simp add: generate_statistics_def)
  moreover have "error_type (rule_finding self fp n ln p) = get_category self p @ name p"
    by (simp add: rule_finding_def error_dict_def Let_def)
  ultimately show ?thesis
    by (simp add: generate_statistics_fields sorted_reverse_descending sorted_reverse_mset
          sorted_reverse_stable)
qed

theorem statistics_are_grouped_counts_witness:
  "errors ((snd (ChanukaErrorExtractor_init ''/proj'' ''out.json''))\<lparr>errors := sample_findings\<rparr>)
     = errors ((snd (ChanukaErrorExtractor_init ''/other'' ''x.json''))\<lparr>errors := sample_findings\<rparr>)
   \<and> generate_statistics
       ((snd (ChanukaErrorExtractor_init ''/other'' ''x.json''))\<lparr>errors := sample_findings\<rparr>)
     = \<lparr>total_errors = 4,
        by_severity = [(''info'', 1), (''critical'', 1), (''warning'', 2)],
        by_type = [(''Code Quality - console.log'', 1), (''Code Quality - eval'', 1),
                   (''Code Quality - TODO'', 2)],
        by_module = [(''src'', 4)],
        by_file = [(''src/b.ts'', 1), (''src/a.ts'', 3)],
        top_errors = [(''Code Quality - TODO'', 2), (''Code Quality - console.log'', 1),
                      (''Code Quality - eval'', 1)],
        critical_files = [(''src/a.ts'', 3), (''src/b.ts'', 1)]\<rparr>"
proof -
  let ?a = "(snd (ChanukaErrorExtractor_init ''/proj'' ''out.json''))\<lparr>errors := sample_findings\<rparr>"
  let ?b = "(snd (ChanukaErrorExtractor_init ''/other'' ''x.json''))\<lparr>errors := sample_findings\<rparr>"
  have e: "errors ?a = errors ?b" by simp
  from statistics_are_grouped_counts [where self = ?a and other = ?b]
  have "errors ?a = errors ?b \<longrightarrow> generate_statistics ?a = generate_statistics ?b"
    by blast
  with e have "generate_statistics ?b = generate_statistics ?a" by simp
  with e sample_statistics show ?thesis by simp
qed

section \<open>Lines counted\<close>

text \<open>
  Claim C9. A file that is read adds to \<^verbatim>\<open>scanned_lines\<close> the number of newline characters in
  its text plus one, which is the length of \<^verbatim>\<open>content.split('\n')\<close>; this holds for the handler
  of \<^verbatim>\<open>.ts\<close> files, the one of \<^verbatim>\<open>.tsx\<close> and \<^verbatim>\<open>.jsx\<close> files and the one of \<^verbatim>\<open>.js\<close> files. So
  a text that ends with a newline has its trailing empty line counted, and a text without
  newline counts as one line.
\<close>

theorem lines_scanned_is_newlines_plus_one:
  "length (str_split newline (decode b)) = count_list (decode b) newline + 1
   \<and> scanned_lines (check_typescript_file decode self fp (Content b))
       = scanned_lines self + (count_list (decode b) newline + 1)
   \<and> scanned_lines (check_react_file decode self fp (Content b))
       = scanned_lines self + (count_list (decode b) newline + 1)
   \<and> scanned_lines (check_javascript_file decode self fp (Content b))
       = scanned_lines self + (count_list (decode b) newline + 1)"
  by (simp add: check_typescript_file_Content check_react_file_Content
      check_javascript_file_def length_str_split)

theorem lines_scanned_is_newlines_plus_one_witness:
  "scanned_lines (check_typescript_file decode_ascii
       (snd (ChanukaErrorExtractor_init ''/proj'' ''out.json'')) ''/proj/src/a.ts''
       (Content (ascii (''x = 1;'' @ [newline] @ ''y = 2;'' @ [newline])))) = 3
   \<and> scanned_lines (check_react_file decode_ascii
       (snd (ChanukaErrorExtractor_init ''/proj'' ''out.json'')) ''/proj/src/a.tsx''
       (Content (ascii ''x = 1;''))) = 1"
  using lines_scanned_is_newlines_plus_one
          [of decode_ascii "ascii (''x = 1;'' @ [newline] @ ''y = 2;'' @ [newline])"
              "snd (ChanukaErrorExtractor_init ''/proj'' ''out.json'')" "''/proj/src/a.ts''"]
        lines_scanned_is_newlines_plus_one
          [of decode_ascii "ascii ''x = 1;''"
              "snd (ChanukaErrorExtractor_init ''/proj'' ''out.json'')" "''/proj/src/a.tsx''"]
  by (simp add: decode_ascii_ascii)

section \<open>Bytes that are not valid UTF-8\<close>



end
